theory Spec2Isabelle
  imports Main
begin

section \<open>JavaScript numbers\<close>

text \<open>
  The numbers of the program are \<open>NaN\<close>, an infinity, or an integer held in a double.
  \<open>toNumber\<close> is the conversion of an integer to a double: exact below \<open>2^53\<close>, rounded
  to 53 significant bits (to nearest, ties to even) from there on, infinite from \<open>2^1024\<close>
  on.
\<close>

datatype JsNumber = NaN | Fin int | PosInfinity | NegInfinity

fun bitLength :: "nat \<Rightarrow> nat" where
  "bitLength n = (if n = 0 then 0 else Suc (bitLength (n div 2)))"

declare bitLength.simps [simp del]

definition roundToDouble :: "nat \<Rightarrow> nat" where
  "roundToDouble n =
     (if n < 2 ^ 53 then n
      else (let e = bitLength n - 53;
                q = n div 2 ^ e;
                r = n mod 2 ^ e;
                half = 2 ^ (e - 1)
            in (if r > half \<or> (r = half \<and> odd q) then q + 1 else q) * 2 ^ e))"

definition toNumber :: "int \<Rightarrow> JsNumber" where
  "toNumber z =
     (let m = roundToDouble (nat \<bar>z\<bar>) in
      if m \<ge> 2 ^ 1024 then (if z < 0 then NegInfinity else PosInfinity)
      else Fin (if z < 0 then - int m else int m))"

fun isNaN :: "JsNumber \<Rightarrow> bool" where
  "isNaN NaN = True"
| "isNaN _ = False"

fun lessEq :: "JsNumber \<Rightarrow> JsNumber \<Rightarrow> bool" where
  "lessEq NaN _ = False"
| "lessEq _ NaN = False"
| "lessEq NegInfinity _ = True"
| "lessEq _ PosInfinity = True"
| "lessEq PosInfinity _ = False"
| "lessEq _ NegInfinity = False"
| "lessEq (Fin a) (Fin b) = (a \<le> b)"

fun increment :: "JsNumber \<Rightarrow> JsNumber" where
  "increment (Fin z) = toNumber (z + 1)"
| "increment n = n"

text \<open>\<open>x + k\<close> for an integer \<open>k\<close>, and \<open>x % n\<close> for an integer \<open>n\<close> (the sign is that of \<open>x\<close>).\<close>

fun plusInt :: "JsNumber \<Rightarrow> int \<Rightarrow> JsNumber" where
  "plusInt (Fin z) k = toNumber (z + k)"
| "plusInt n k = n"

fun remainder :: "JsNumber \<Rightarrow> int \<Rightarrow> JsNumber" where
  "remainder (Fin z) n = (if n = 0 then NaN else Fin (sgn z * (\<bar>z\<bar> mod \<bar>n\<bar>)))"
| "remainder x n = NaN"

section \<open>Data model (types.ts)\<close>

text \<open>
  Strings are lists of 8-bit code units. An optional property of a TypeScript interface
  is an \<open>option\<close>: \<open>None\<close> stands for a property that is absent, \<open>undefined\<close>
  or \<open>null\<close>: the handlers never tell these apart when they decide what to do, except
  for the thumbnail cursor, which they use in arithmetic (\<open>undefined\<close> counts as
  \<open>NaN\<close>, \<open>null\<close> as 0) and which has a type of its own.
\<close>

datatype IndexValue = IndexUndefined | IndexNull | IndexNumber JsNumber

fun indexToNumber :: "IndexValue \<Rightarrow> JsNumber" where
  "indexToNumber IndexUndefined = NaN"
| "indexToNumber IndexNull = Fin 0"
| "indexToNumber (IndexNumber n) = n"

datatype align = AlignLeft | AlignCenter | AlignRight

record CellStyle =
  bold :: "bool option"
  italic :: "bool option"
  underline :: "bool option"
  strikethrough :: "bool option"
  color :: "string option"
  align :: "align option"

record CellData =
  cell_value :: string
  cell_style :: "CellStyle option"

record SheetData =
  sheetName :: string
  sheet_data :: "CellData list list"

datatype ProcessJobStatus = Queued | Processing | Success | Error

datatype ConversionMode = PdfToExcel | ExcelToPdf

datatype orientation = Portrait | Landscape

record PdfOptions =
  pdf_orientation :: orientation
  pdf_fontSize :: nat
  pdf_autoWidth :: bool

text \<open>
  A browser \<open>File\<close>: the three properties the job id is built from, the MIME type, and
  a handle on the bytes, which the program only passes to its readers.
\<close>

record File =
  file_name :: string
  file_lastModified :: nat
  file_size :: nat
  file_type :: string
  file_blob :: nat

record ProcessJob =
  job_id :: string
  job_file :: "File option"
  fileName :: string
  fileSize :: nat
  status :: ProcessJobStatus
  conversionMode :: ConversionMode
  extractedSheets :: "SheetData list option"
  errorMessage :: "string option"
  thumbnailUrls :: "string list option"
  currentThumbnailIndex :: IndexValue
  pdfPageCount :: "nat option"
  pageRange :: "string option"
  progressMessage :: "string option"
  pdfOptions :: "PdfOptions option"

definition MAX_CONCURRENT_JOBS :: int where
  "MAX_CONCURRENT_JOBS = 3"

definition DEFAULT_PDF_OPTIONS :: PdfOptions where
  "DEFAULT_PDF_OPTIONS = \<lparr>pdf_orientation = Portrait, pdf_fontSize = 10, pdf_autoWidth = True\<rparr>"

section \<open>Application state (the \<open>useState\<close> cells of \<open>App\<close>)\<close>

text \<open>
  What a run of \<open>processJob\<close> does, step by step: the state updates it queues and the
  calls it makes to the outside (the PDF reader and renderer, the extraction service, the
  spreadsheet reader).
\<close>

datatype ExternalCall =
    CallConvertPdfToImages File string
  | CallExtractDataFromPdfImages "string list"
  | CallReadExcelData File

datatype Action =
    IncActive
  | DecActive
  | SetProgress string string
  | SetSuccess string "SheetData list"
  | SetError string string
  | SetFileMissing string
  | Call ExternalCall

text \<open>
  Every handler of \<open>App\<close> is a function from the state to the next state: the
  functional updates it queues (\<open>setJobs(prev => ...)\<close>) are applied in the order in
  which it queues them. \<open>selectedJobIds\<close> is a JavaScript \<open>Set\<close> of ids.
  \<open>inflight\<close> is not a \<open>useState\<close> cell: it holds the runs of \<open>processJob\<close> that
  were dispatched and have not finished, each as the steps it still has to do.
\<close>

record AppState =
  jobs :: "ProcessJob list"
  activeJobsCount :: int
  selectedJobIds :: "string set"
  appMode :: ConversionMode
  inflight :: "Action list list"

section \<open>Restoring the queue (the initialiser of \<open>jobs\<close>)\<close>

text \<open>
  What \<open>localStorage.getItem\<close> and \<open>JSON.parse\<close> give the initialiser: no saved
  item, text that does not parse (the \<open>catch\<close> branch), or the saved jobs.
\<close>

datatype SavedQueue = NoItem | Malformed | Snapshot "ProcessJob list"

definition interrupted_message :: string where
  "interrupted_message = ''Processing was interrupted. Please re-upload to retry.''"

definition restoreJob :: "ProcessJob \<Rightarrow> ProcessJob" where
  "restoreJob job =
     (if status job = Processing \<or> status job = Queued
      then job\<lparr>status := Error, errorMessage := Some interrupted_message, job_file := None\<rparr>
      else job\<lparr>job_file := None\<rparr>)"

fun restoreQueue :: "SavedQueue \<Rightarrow> ProcessJob list" where
  "restoreQueue NoItem = []"
| "restoreQueue Malformed = []"
| "restoreQueue (Snapshot savedJobs) = map restoreJob savedJobs"

definition initialState :: "SavedQueue \<Rightarrow> AppState" where
  "initialState saved =
     \<lparr>jobs = restoreQueue saved, activeJobsCount = 0, selectedJobIds = {},
      appMode = PdfToExcel, inflight = []\<rparr>"

section \<open>Retry\<close>

definition handleRetry :: "string \<Rightarrow> AppState \<Rightarrow> AppState" where
  "handleRetry jobId s =
     s\<lparr>jobs := map (\<lambda>job. if job_id job = jobId
                            then job\<lparr>status := Queued, errorMessage := None, extractedSheets := None\<rparr>
                            else job) (jobs s)\<rparr>"

text \<open>
  The retry button of a job row: it is rendered only for a job in status \<open>error\<close>, it
  is disabled when the job holds no file, and a click on a disabled button runs no handler.
\<close>

definition retryButtonShown :: "ProcessJob \<Rightarrow> bool" where
  "retryButtonShown job = (status job = Error)"

definition retryButtonDisabled :: "ProcessJob \<Rightarrow> bool" where
  "retryButtonDisabled job = (job_file job = None)"

definition clickRetry :: "ProcessJob \<Rightarrow> AppState \<Rightarrow> AppState" where
  "clickRetry job s =
     (if retryButtonShown job \<and> \<not> retryButtonDisabled job then handleRetry (job_id job) s else s)"

section \<open>Adding files (\<open>handleFileSelect\<close>)\<close>

text \<open>A non-negative integer as a template literal prints it: its decimal digits.\<close>

fun decimal :: "nat \<Rightarrow> string" where
  "decimal n = (if n < 10 then [''0123456789'' ! n]
                else decimal (n div 10) @ [''0123456789'' ! (n mod 10)])"

declare decimal.simps [simp del]

definition newJob :: "ConversionMode \<Rightarrow> File \<Rightarrow> ProcessJob" where
  "newJob mode f =
     \<lparr>job_id = file_name f @ ''-'' @ decimal (file_lastModified f) @ ''-'' @ decimal (file_size f),
      job_file = Some f,
      fileName = file_name f,
      fileSize = file_size f,
      status = Queued,
      conversionMode = mode,
      extractedSheets = None,
      errorMessage = None,
      thumbnailUrls = None,
      currentThumbnailIndex = IndexNumber (Fin 0),
      pdfPageCount = None,
      pageRange = Some [],
      progressMessage = Some [],
      pdfOptions = (if mode = ExcelToPdf then Some DEFAULT_PDF_OPTIONS else None)\<rparr>"

definition isActive :: "ProcessJob \<Rightarrow> bool" where
  "isActive job = (status job = Queued \<or> status job = Processing)"

definition handleFileSelect :: "File list \<Rightarrow> AppState \<Rightarrow> AppState" where
  "handleFileSelect files s =
     (let newJobs = map (newJob (appMode s)) files;
          activeJobs = filter isActive (jobs s)
      in s\<lparr>jobs := activeJobs @ newJobs, selectedJobIds := {}\<rparr>)"

text \<open>
  The thumbnails of a new PDF job arrive later, each in an update of its own
  (\<open>generatePdfThumbnail\<close> resolves with the preview images and the page count).
\<close>

definition thumbnailReady :: "string \<Rightarrow> string list option \<Rightarrow> nat \<Rightarrow> AppState \<Rightarrow> AppState" where
  "thumbnailReady jobId urls pageCount s =
     s\<lparr>jobs := map (\<lambda>j. if job_id j = jobId
                          then j\<lparr>thumbnailUrls := urls, pdfPageCount := Some pageCount\<rparr>
                          else j) (jobs s)\<rparr>"

section \<open>Clearing, editing a job's settings\<close>

definition handleClearAll :: "AppState \<Rightarrow> AppState" where
  "handleClearAll s = s\<lparr>jobs := [], selectedJobIds := {}\<rparr>"

definition switchConversionMode :: "ConversionMode \<Rightarrow> AppState \<Rightarrow> AppState" where
  "switchConversionMode mode s =
     (if mode \<noteq> appMode s then (handleClearAll s)\<lparr>appMode := mode\<rparr> else s)"

definition handleClearCompleted :: "AppState \<Rightarrow> AppState" where
  "handleClearCompleted s = s\<lparr>jobs := filter isActive (jobs s), selectedJobIds := {}\<rparr>"

definition handlePageRangeChange :: "string \<Rightarrow> string \<Rightarrow> AppState \<Rightarrow> AppState" where
  "handlePageRangeChange jobId newRange s =
     s\<lparr>jobs := map (\<lambda>job. if job_id job = jobId then job\<lparr>pageRange := Some newRange\<rparr> else job)
                  (jobs s)\<rparr>"

datatype direction = Next | Prev

definition cycleThumbnail :: "direction \<Rightarrow> ProcessJob \<Rightarrow> ProcessJob" where
  "cycleThumbnail dir job =
     (case thumbnailUrls job of
        None \<Rightarrow> job
      | Some urls \<Rightarrow>
          if length urls > 1
          then (let cur = indexToNumber (currentThumbnailIndex job);
                    n = int (length urls);
                    newIndex = (case dir of
                                  Next \<Rightarrow> remainder (plusInt cur 1) n
                                | Prev \<Rightarrow> remainder (plusInt (plusInt cur (- 1)) n) n)
                in job\<lparr>currentThumbnailIndex := IndexNumber newIndex\<rparr>)
          else job)"

definition handleThumbnailCycle :: "string \<Rightarrow> direction \<Rightarrow> AppState \<Rightarrow> AppState" where
  "handleThumbnailCycle jobId dir s =
     s\<lparr>jobs := map (\<lambda>job. if job_id job = jobId then cycleThumbnail dir job else job) (jobs s)\<rparr>"

definition handleSaveChanges :: "string \<Rightarrow> SheetData list \<Rightarrow> AppState \<Rightarrow> AppState" where
  "handleSaveChanges viewingId editedData s =
     s\<lparr>jobs := map (\<lambda>job. if job_id job = viewingId
                            then job\<lparr>extractedSheets := Some editedData\<rparr> else job) (jobs s)\<rparr>"

definition handleSavePdfOptions :: "string \<Rightarrow> PdfOptions \<Rightarrow> AppState \<Rightarrow> AppState" where
  "handleSavePdfOptions jobId newOptions s =
     s\<lparr>jobs := map (\<lambda>j. if job_id j = jobId then j\<lparr>pdfOptions := Some newOptions\<rparr> else j)
                  (jobs s)\<rparr>"

section \<open>Selecting jobs\<close>

definition handleToggleSelection :: "string \<Rightarrow> AppState \<Rightarrow> AppState" where
  "handleToggleSelection jobId s =
     s\<lparr>selectedJobIds := (if jobId \<in> selectedJobIds s
                            then selectedJobIds s - {jobId}
                            else insert jobId (selectedJobIds s))\<rparr>"

text \<open>
  \<open>handleToggleSelectAll\<close> reads the visible page (\<open>paginatedJobs\<close>) and the selected
  ids. \<open>selectedOnPage.length\<close> counts the selected ids that are ids of the page.
\<close>

definition toggleSelectAll :: "ProcessJob list \<Rightarrow> string set \<Rightarrow> string set" where
  "toggleSelectAll paginatedJobs selected =
     (let paginatedJobIds = set (map job_id paginatedJobs);
          selectedOnPage = card (selected \<inter> paginatedJobIds)
      in if selectedOnPage = length paginatedJobs \<and> length paginatedJobs > 0
         then selected - paginatedJobIds
         else selected \<union> paginatedJobIds)"

definition handleToggleSelectAll :: "ProcessJob list \<Rightarrow> AppState \<Rightarrow> AppState" where
  "handleToggleSelectAll paginatedJobs s =
     s\<lparr>selectedJobIds := toggleSelectAll paginatedJobs (selectedJobIds s)\<rparr>"

text \<open>The effect that drops selected ids of jobs that are no longer in the queue.\<close>

definition reconcileSelection :: "AppState \<Rightarrow> AppState" where
  "reconcileSelection s =
     (let jobIds = set (map job_id (jobs s));
          newSelectedIds = selectedJobIds s \<inter> jobIds
      in if newSelectedIds \<noteq> selectedJobIds s then s\<lparr>selectedJobIds := newSelectedIds\<rparr> else s)"

definition clearSelection :: "AppState \<Rightarrow> AppState" where
  "clearSelection s = s\<lparr>selectedJobIds := {}\<rparr>"

definition handleDeleteSelected :: "AppState \<Rightarrow> AppState" where
  "handleDeleteSelected s =
     s\<lparr>jobs := filter (\<lambda>job. job_id job \<notin> selectedJobIds s) (jobs s), selectedJobIds := {}\<rparr>"

text \<open>
  \<open>handleRetrySelected\<close>: a selected id is retried when the first job of the queue with
  that id (\<open>jobs.find\<close>) is in status \<open>error\<close> and holds a file.
\<close>

definition retryable :: "ProcessJob list \<Rightarrow> string \<Rightarrow> bool" where
  "retryable js jobId =
     (case find (\<lambda>j. job_id j = jobId) js of
        None \<Rightarrow> False
      | Some job \<Rightarrow> status job = Error \<and> job_file job \<noteq> None)"

definition handleRetrySelected :: "AppState \<Rightarrow> AppState" where
  "handleRetrySelected s =
     (let jobsToRetryIds = {jobId \<in> selectedJobIds s. retryable (jobs s) jobId};
          s' = (if jobsToRetryIds \<noteq> {}
                then s\<lparr>jobs := map (\<lambda>job. if job_id job \<in> jobsToRetryIds
                                        then job\<lparr>status := Queued, errorMessage := None,
                                               extractedSheets := None\<rparr>
                                        else job) (jobs s)\<rparr>
                else s)
      in s'\<lparr>selectedJobIds := {}\<rparr>)"


section \<open>The pipeline of one job (\<open>processJob\<close>)\<close>

text \<open>
  A value that was thrown, or with which a promise was rejected: an \<open>Error\<close> with its
  message, or something that is not an \<open>Error\<close>.
\<close>

datatype Thrown = ErrorObj string | NonError

record RawSheet =
  raw_sheetName :: string
  raw_data :: "string list list"

text \<open>
  The outside world of a run: what \<open>convertPdfToImages\<close> reports through
  \<open>onProgress\<close> and how it settles, and how \<open>extractDataFromPdfImages\<close> and
  \<open>readExcelData\<close> settle.
\<close>

record Env =
  convertPdfToImages :: "File \<Rightarrow> string \<Rightarrow> string list \<times> (Thrown + string list)"
  extractDataFromPdfImages :: "string list \<Rightarrow> Thrown + RawSheet list"
  readExcelData :: "File \<Rightarrow> Thrown + RawSheet list"

definition emptyStyle :: CellStyle where
  "emptyStyle = \<lparr>bold = None, italic = None, underline = None, strikethrough = None,
                  color = None, align = None\<rparr>"

definition convertRawSheetsToRich :: "RawSheet list \<Rightarrow> SheetData list" where
  "convertRawSheetsToRich rawSheets =
     map (\<lambda>sheet. \<lparr>sheetName = raw_sheetName sheet,
                    sheet_data = map (map (\<lambda>cellValue. \<lparr>cell_value = cellValue,
                                                            cell_style = Some emptyStyle\<rparr>))
                                     (raw_data sheet)\<rparr>) rawSheets"

text \<open>
  The \<open>try\<close> block: the steps it performs, and the value it throws if it does not run
  to its end.
\<close>

definition tryBlock :: "Env \<Rightarrow> ProcessJob \<Rightarrow> File \<Rightarrow> Action list \<times> Thrown option" where
  "tryBlock env jobToProcess f =
     (let jobId = job_id jobToProcess in
      case conversionMode jobToProcess of
        PdfToExcel \<Rightarrow>
          (let pages = (case pageRange jobToProcess of None \<Rightarrow> [] | Some r \<Rightarrow> r);
               (messages, converted) = convertPdfToImages env f pages;
               started = Call (CallConvertPdfToImages f pages) # map (SetProgress jobId) messages
           in case converted of
                Inl thrown \<Rightarrow> (started, Some thrown)
              | Inr images \<Rightarrow>
                  (let analysing = started @
                         [SetProgress jobId
                            (''AI is analyzing '' @ decimal (length images) @ '' page(s)...''),
                          Call (CallExtractDataFromPdfImages images)]
                   in case extractDataFromPdfImages env images of
                        Inl thrown \<Rightarrow> (analysing, Some thrown)
                      | Inr rawSheets \<Rightarrow>
                          (analysing @ [SetSuccess jobId (convertRawSheetsToRich rawSheets)],
                           None)))
      | ExcelToPdf \<Rightarrow>
          (let reading = [SetProgress jobId ''Reading spreadsheet...'', Call (CallReadExcelData f)]
           in case readExcelData env f of
                Inl thrown \<Rightarrow> (reading, Some thrown)
              | Inr rawSheets \<Rightarrow>
                  if length rawSheets = 0
                  then (reading, Some (ErrorObj ''Excel file contains no data.''))
                  else (reading @ [SetSuccess jobId (convertRawSheetsToRich rawSheets)], None)))"

definition catchBlock :: "string \<Rightarrow> Thrown \<Rightarrow> Action list" where
  "catchBlock jobId thrown =
     [SetError jobId (case thrown of
                        ErrorObj message \<Rightarrow> message
                      | NonError \<Rightarrow> ''An unexpected error occurred.'')]"

definition processJob :: "Env \<Rightarrow> ProcessJob \<Rightarrow> Action list" where
  "processJob env jobToProcess =
     (case job_file jobToProcess of
        None \<Rightarrow> [SetFileMissing (job_id jobToProcess)]
      | Some f \<Rightarrow>
          (let (tried, thrown) = tryBlock env jobToProcess f
           in IncActive #
              tried @
              (case thrown of None \<Rightarrow> [] | Some t \<Rightarrow> catchBlock (job_id jobToProcess) t) @
              [DecActive]))"

definition updateJob :: "string \<Rightarrow> (ProcessJob \<Rightarrow> ProcessJob) \<Rightarrow> AppState \<Rightarrow> AppState" where
  "updateJob jobId f s = s\<lparr>jobs := map (\<lambda>j. if job_id j = jobId then f j else j) (jobs s)\<rparr>"

fun applyAction :: "Action \<Rightarrow> AppState \<Rightarrow> AppState" where
  "applyAction IncActive s = s\<lparr>activeJobsCount := activeJobsCount s + 1\<rparr>"
| "applyAction DecActive s = s\<lparr>activeJobsCount := activeJobsCount s - 1\<rparr>"
| "applyAction (SetProgress jobId message) s =
     updateJob jobId (\<lambda>j. j\<lparr>progressMessage := Some message\<rparr>) s"
| "applyAction (SetSuccess jobId sheets) s =
     updateJob jobId (\<lambda>j. j\<lparr>status := Success, extractedSheets := Some sheets,
                             progressMessage := None\<rparr>) s"
| "applyAction (SetError jobId message) s =
     updateJob jobId (\<lambda>j. j\<lparr>status := Error, errorMessage := Some message,
                             progressMessage := None\<rparr>) s"
| "applyAction (SetFileMissing jobId) s =
     updateJob jobId (\<lambda>j. j\<lparr>status := Error,
                             errorMessage := Some ''File not available. Please re-upload to process.''\<rparr>) s"
| "applyAction (Call c) s = s"

text \<open>A whole run with nothing in between: its steps applied one after the other.\<close>

definition runActions :: "Action list \<Rightarrow> AppState \<Rightarrow> AppState" where
  "runActions as s = fold applyAction as s"

section \<open>The scheduler (the effect on \<open>jobs\<close> and \<open>activeJobsCount\<close>)\<close>

text \<open>
  \<open>processJob(job)\<close> runs up to its first \<open>await\<close> inside the effect: the missing-file
  update, or the increment of the counter. What is left of the run waits in \<open>inflight\<close>.
\<close>

definition dispatch :: "Env \<Rightarrow> ProcessJob \<Rightarrow> AppState \<Rightarrow> AppState" where
  "dispatch env job s =
     (case processJob env job of
        [] \<Rightarrow> s
      | a # rest \<Rightarrow>
          (let s' = applyAction a s
           in if rest = [] then s' else s'\<lparr>inflight := inflight s' @ [rest]\<rparr>))"

definition jobsToStart :: "AppState \<Rightarrow> ProcessJob list" where
  "jobsToStart s =
     take (nat (MAX_CONCURRENT_JOBS - activeJobsCount s))
          (filter (\<lambda>job. status job = Queued) (jobs s))"

definition markProcessing :: "ProcessJob list \<Rightarrow> AppState \<Rightarrow> AppState" where
  "markProcessing starting s =
     s\<lparr>jobs := map (\<lambda>j. if \<exists>js \<in> set starting. job_id js = job_id j
                          then j\<lparr>status := Processing\<rparr> else j) (jobs s)\<rparr>"

definition scheduler :: "Env \<Rightarrow> AppState \<Rightarrow> AppState" where
  "scheduler env s =
     (let availableSlots = MAX_CONCURRENT_JOBS - activeJobsCount s in
      if availableSlots \<le> 0 then s
      else (let starting = jobsToStart s
            in if length starting > 0
               then fold (dispatch env) starting (markProcessing starting s)
               else s))"

text \<open>One in-flight run performs its next step; a run with no step left is gone.\<close>

definition pipelineStep :: "nat \<Rightarrow> AppState \<Rightarrow> AppState" where
  "pipelineStep i s =
     (if i < length (inflight s)
      then (case inflight s ! i of
              [] \<Rightarrow> s\<lparr>inflight := take i (inflight s) @ drop (Suc i) (inflight s)\<rparr>
            | a # rest \<Rightarrow>
                (let s' = applyAction a s
                 in s'\<lparr>inflight := (if rest = []
                                     then take i (inflight s) @ drop (Suc i) (inflight s)
                                     else (inflight s)[i := rest])\<rparr>))
      else s)"

definition processingCount :: "AppState \<Rightarrow> nat" where
  "processingCount s = length (filter (\<lambda>j. status j = Processing) (jobs s))"


section \<open>The application as a transition system\<close>

text \<open>
  A failed download marks the job as failed (the \<open>catch\<close> branch of
  \<open>handleDownload\<close>).
\<close>

definition downloadFailed :: "string \<Rightarrow> string \<Rightarrow> AppState \<Rightarrow> AppState" where
  "downloadFailed jobId message s =
     updateJob jobId (\<lambda>j. j\<lparr>status := Error, errorMessage := Some message\<rparr>) s"

text \<open>
  Everything that changes the state: the user's actions, the effects, the steps of the
  in-flight runs. The upload area is disabled while \<open>activeJobsCount > 0\<close> and passes on
  a non-empty list of files; the retry button belongs to a job of the queue.
\<close>

datatype Event =
    EvFileSelect "File list"
  | EvThumbnailReady string "string list option" nat
  | EvClearAll
  | EvSwitchMode ConversionMode
  | EvClearCompleted
  | EvScheduler Env
  | EvPipelineStep nat
  | EvDownloadFailed string string
  | EvClickRetry ProcessJob
  | EvPageRangeChange string string
  | EvThumbnailCycle string direction
  | EvSaveChanges string "SheetData list"
  | EvSavePdfOptions string PdfOptions
  | EvToggleSelection string
  | EvToggleSelectAll "ProcessJob list"
  | EvReconcileSelection
  | EvClearSelection
  | EvDeleteSelected
  | EvRetrySelected

fun enabled :: "Event \<Rightarrow> AppState \<Rightarrow> bool" where
  "enabled (EvFileSelect files) s = (\<not> activeJobsCount s > 0 \<and> length files > 0)"
| "enabled (EvClickRetry job) s = (job \<in> set (jobs s))"
| "enabled (EvToggleSelectAll paginatedJobs) s = (set paginatedJobs \<subseteq> set (jobs s))"
| "enabled _ s = True"

fun fire :: "Event \<Rightarrow> AppState \<Rightarrow> AppState" where
  "fire (EvFileSelect files) s = handleFileSelect files s"
| "fire (EvThumbnailReady jobId urls pageCount) s = thumbnailReady jobId urls pageCount s"
| "fire EvClearAll s = handleClearAll s"
| "fire (EvSwitchMode mode) s = switchConversionMode mode s"
| "fire EvClearCompleted s = handleClearCompleted s"
| "fire (EvScheduler env) s = scheduler env s"
| "fire (EvPipelineStep i) s = pipelineStep i s"
| "fire (EvDownloadFailed jobId message) s = downloadFailed jobId message s"
| "fire (EvClickRetry job) s = clickRetry job s"
| "fire (EvPageRangeChange jobId newRange) s = handlePageRangeChange jobId newRange s"
| "fire (EvThumbnailCycle jobId dir) s = handleThumbnailCycle jobId dir s"
| "fire (EvSaveChanges viewingId editedData) s = handleSaveChanges viewingId editedData s"
| "fire (EvSavePdfOptions jobId newOptions) s = handleSavePdfOptions jobId newOptions s"
| "fire (EvToggleSelection jobId) s = handleToggleSelection jobId s"
| "fire (EvToggleSelectAll paginatedJobs) s = handleToggleSelectAll paginatedJobs s"
| "fire EvReconcileSelection s = reconcileSelection s"
| "fire EvClearSelection s = clearSelection s"
| "fire EvDeleteSelected s = handleDeleteSelected s"
| "fire EvRetrySelected s = handleRetrySelected s"

inductive reachable :: "AppState \<Rightarrow> bool" where
  start: "reachable (initialState saved)"
| step: "reachable s \<Longrightarrow> enabled e s \<Longrightarrow> reachable (fire e s)"

text \<open>
  What is left of a dispatched run: steps that leave the counter alone, then the one
  decrement.
\<close>

definition pendingRun :: "Action list \<Rightarrow> bool" where
  "pendingRun r =
     (r \<noteq> [] \<and> last r = DecActive \<and>
      IncActive \<notin> set (butlast r) \<and> DecActive \<notin> set (butlast r) \<and> IncActive \<notin> set r)"


text \<open>
  The counter counts the in-flight runs, never exceeds the ceiling, and every in-flight
  run still holds its decrement.
\<close>

definition counterInv :: "AppState \<Rightarrow> bool" where
  "counterInv s = (activeJobsCount s = int (length (inflight s)) \<and>
                   activeJobsCount s \<le> MAX_CONCURRENT_JOBS \<and>
                   (\<forall>r \<in> set (inflight s). pendingRun r))"

text \<open>A sequence of events from a state, as far as each is enabled.\<close>

fun run :: "Event list \<Rightarrow> AppState \<Rightarrow> AppState option" where
  "run [] s = Some s"
| "run (e # es) s = (if enabled e s then run es (fire e s) else None)"

section \<open>Example values\<close>

definition exampleFile :: File where
  "exampleFile = \<lparr>file_name = ''a.pdf'', file_lastModified = 1, file_size = 2,
                   file_type = ''application/pdf'', file_blob = 0\<rparr>"

definition otherFile :: File where
  "otherFile = \<lparr>file_name = ''b.pdf'', file_lastModified = 3, file_size = 4,
                 file_type = ''application/pdf'', file_blob = 1\<rparr>"

text \<open>An outside world in which the PDF cannot be read.\<close>

definition unreadableEnv :: Env where
  "unreadableEnv =
     \<lparr>convertPdfToImages = (\<lambda>f r. ([], Inl (ErrorObj ''Failed to read the PDF file.''))),
      extractDataFromPdfImages = (\<lambda>images. Inl NonError),
      readExcelData = (\<lambda>f. Inl NonError)\<rparr>"

text \<open>A queue whose only job has failed, with a stale id selected.\<close>

definition finishedState :: AppState where
  "finishedState = downloadFailed (job_id (newJob PdfToExcel exampleFile)) ''failed''
      (handleToggleSelection ''x'' (handleFileSelect [exampleFile] (initialState NoItem)))"

definition exampleEvents :: "Event list" where
  "exampleEvents = [EvFileSelect [exampleFile], EvScheduler unreadableEnv,
                    EvPipelineStep 0, EvPipelineStep 0, EvPipelineStep 0]"

definition exampleFinal :: AppState where
  "exampleFinal = \<lparr>jobs = [(newJob PdfToExcel exampleFile)\<lparr>status := Error,
                          errorMessage := Some ''Failed to read the PDF file.'', progressMessage := None\<rparr>],
                    activeJobsCount = 0, selectedJobIds = {}, appMode = PdfToExcel, inflight = []\<rparr>"

text \<open>The end of the example run with its one job selected.\<close>

definition selectedFinal :: AppState where
  "selectedFinal = handleToggleSelection (job_id (newJob PdfToExcel exampleFile)) exampleFinal"

definition filesInv :: "AppState \<Rightarrow> bool" where
  "filesInv s = ((\<forall>j \<in> set (jobs s). job_file j \<noteq> None) \<or>
                 (\<forall>j \<in> set (jobs s). job_file j = None \<and> \<not> isActive j))"

definition restoredState :: AppState where
  "restoredState = handleToggleSelection (job_id (newJob PdfToExcel exampleFile))
                     (initialState (Snapshot [newJob PdfToExcel exampleFile]))"

text \<open>
  Four files that agree in name, modification time and size and differ in content, and
  the queue after they were added together.
\<close>

definition sameFiles :: "File list" where
  "sameFiles = map (\<lambda>b. exampleFile\<lparr>file_blob := b\<rparr>) [0, 1, 2, 3]"

definition sameFilesQueued :: AppState where
  "sameFilesQueued = handleFileSelect sameFiles (initialState NoItem)"

section \<open>The cell editor (\<open>handleStyleChange\<close>)\<close>

text \<open>
  A selection is a rectangle of cell positions. A style patch (\<open>Partial<CellStyle>\<close>)
  names some of the style's properties: for each property, \<open>None\<close> when the patch does
  not name it, \<open>Some v\<close> when it does (\<open>v\<close> may be \<open>undefined\<close>, as in the patch that
  removes the colour). The object spread \<open>{...currentStyle, ...style}\<close> takes every named
  property from the patch and every other one from the current style.

  \<open>handleStyleChange\<close> works on a deep copy of the sheets and visits the rectangle row
  by row; reading a property of a cell, a row or a sheet that does not exist throws a
  \<open>TypeError\<close>, which ends the update.
\<close>

record Pos =
  row :: nat
  col :: nat

record Selection =
  sel_start :: Pos
  sel_end :: Pos

record StylePatch =
  patch_bold :: "bool option option"
  patch_italic :: "bool option option"
  patch_underline :: "bool option option"
  patch_strikethrough :: "bool option option"
  patch_color :: "string option option"
  patch_align :: "align option option"

definition noPatch :: StylePatch where
  "noPatch = \<lparr>patch_bold = None, patch_italic = None, patch_underline = None,
                patch_strikethrough = None, patch_color = None, patch_align = None\<rparr>"

definition spread :: "'a \<Rightarrow> 'a option \<Rightarrow> 'a" where
  "spread current patched = (case patched of None \<Rightarrow> current | Some v \<Rightarrow> v)"

definition mergeStyle :: "CellStyle \<Rightarrow> StylePatch \<Rightarrow> CellStyle" where
  "mergeStyle currentStyle style =
     \<lparr>bold = spread (bold currentStyle) (patch_bold style),
      italic = spread (italic currentStyle) (patch_italic style),
      underline = spread (underline currentStyle) (patch_underline style),
      strikethrough = spread (strikethrough currentStyle) (patch_strikethrough style),
      color = spread (color currentStyle) (patch_color style),
      align = spread (align currentStyle) (patch_align style)\<rparr>"

definition restyle :: "StylePatch \<Rightarrow> CellData \<Rightarrow> CellData" where
  "restyle style cell =
     (let currentStyle = (case cell_style cell of None \<Rightarrow> emptyStyle | Some st \<Rightarrow> st)
      in cell\<lparr>cell_style := Some (mergeStyle currentStyle style)\<rparr>)"

datatype JsError = TypeError

definition styleCell :: "nat \<Rightarrow> StylePatch \<Rightarrow> nat \<times> nat \<Rightarrow> SheetData list \<Rightarrow> JsError + SheetData list" where
  "styleCell sheetIndex style rc newSheets =
     (let r = fst rc; c = snd rc in
      if sheetIndex < length newSheets
      then (let sheet = newSheets ! sheetIndex; rows = sheet_data sheet in
            if r < length rows \<and> c < length (rows ! r)
            then Inr (newSheets[sheetIndex :=
                        sheet\<lparr>sheet_data := rows[r := (rows ! r)[c := restyle style (rows ! r ! c)]]\<rparr>])
            else Inl TypeError)
      else Inl TypeError)"

fun styleCells :: "nat \<Rightarrow> StylePatch \<Rightarrow> (nat \<times> nat) list \<Rightarrow> SheetData list \<Rightarrow> JsError + SheetData list" where
  "styleCells sheetIndex style [] newSheets = Inr newSheets"
| "styleCells sheetIndex style (rc # rest) newSheets =
     (case styleCell sheetIndex style rc newSheets of
        Inl e \<Rightarrow> Inl e
      | Inr newSheets' \<Rightarrow> styleCells sheetIndex style rest newSheets')"

definition rectangle :: "Selection \<Rightarrow> (nat \<times> nat) list" where
  "rectangle selection =
     concat (map (\<lambda>r. map (\<lambda>c. (r, c)) [col (sel_start selection) ..< Suc (col (sel_end selection))])
                 [row (sel_start selection) ..< Suc (row (sel_end selection))])"

definition handleStyleChange ::
  "nat \<Rightarrow> Selection option \<Rightarrow> StylePatch \<Rightarrow> SheetData list option \<Rightarrow> JsError + SheetData list option" where
  "handleStyleChange sheetIndex selection style editedData =
     (case selection of
        None \<Rightarrow> Inr editedData
      | Some sel \<Rightarrow>
          (case editedData of
             None \<Rightarrow> Inr None
           | Some prevData \<Rightarrow>
               (case styleCells sheetIndex style (rectangle sel) prevData of
                  Inl e \<Rightarrow> Inl e
                | Inr newSheets \<Rightarrow> Inr (Some newSheets))))"

definition inRectangle :: "Selection \<Rightarrow> nat \<Rightarrow> nat \<Rightarrow> bool" where
  "inRectangle selection r c =
     (row (sel_start selection) \<le> r \<and> r \<le> row (sel_end selection) \<and>
      col (sel_start selection) \<le> c \<and> c \<le> col (sel_end selection))"

definition cellExists :: "SheetData list \<Rightarrow> nat \<Rightarrow> nat \<Rightarrow> nat \<Rightarrow> bool" where
  "cellExists sheets k r c =
     (k < length sheets \<and> r < length (sheet_data (sheets ! k)) \<and>
      c < length (sheet_data (sheets ! k) ! r))"

definition shape :: "SheetData list \<Rightarrow> (string \<times> nat list) list" where
  "shape sheets = map (\<lambda>sheet. (sheetName sheet, map length (sheet_data sheet))) sheets"

definition boldPatch :: StylePatch where
  "boldPatch = noPatch\<lparr>patch_bold := Some (Some True)\<rparr>"

definition plainCell :: "string \<Rightarrow> CellData" where
  "plainCell v = \<lparr>cell_value = v, cell_style = Some emptyStyle\<rparr>"

definition raggedSheets :: "SheetData list" where
  "raggedSheets = [\<lparr>sheetName = ''Sheet1'',
                     sheet_data = [[plainCell ''a'', plainCell ''b''], [plainCell ''c'']]\<rparr>]"

definition topRow :: Selection where
  "topRow = \<lparr>sel_start = \<lparr>row = 0, col = 0\<rparr>, sel_end = \<lparr>row = 0, col = 1\<rparr>\<rparr>"

definition bothRows :: Selection where
  "bothRows = \<lparr>sel_start = \<lparr>row = 0, col = 0\<rparr>, sel_end = \<lparr>row = 1, col = 1\<rparr>\<rparr>"

section \<open>The sheet table (\<open>DataTable\<close>)\<close>

text \<open>
  The table keeps the active sheet, the active cell and the selection. A click on a cell
  without the shift key makes it the active cell and the selection. A click with the shift
  key, when there is an active cell, selects the rectangle spanned by the active cell and
  the clicked cell and leaves the active cell where it is. The table draws the cells the
  active sheet has, and only a drawn cell is clicked.
\<close>

record ActiveCell =
  ac_sheetIndex :: nat
  ac_rowIndex :: nat
  ac_cellIndex :: nat

record TableState =
  tbl_activeSheetIndex :: nat
  tbl_activeCell :: "ActiveCell option"
  tbl_selection :: "Selection option"

definition initialTable :: TableState where
  "initialTable = \<lparr>tbl_activeSheetIndex = 0, tbl_activeCell = None, tbl_selection = None\<rparr>"

definition handleCellClick :: "bool \<Rightarrow> nat \<Rightarrow> nat \<Rightarrow> TableState \<Rightarrow> TableState" where
  "handleCellClick shiftKey rowIndex cellIndex t =
     (let newActiveCell = \<lparr>ac_sheetIndex = tbl_activeSheetIndex t,
                            ac_rowIndex = rowIndex, ac_cellIndex = cellIndex\<rparr>
      in case (if shiftKey then tbl_activeCell t else None) of
           Some activeCell \<Rightarrow>
             t\<lparr>tbl_selection := Some
                 \<lparr>sel_start = \<lparr>row = min (ac_rowIndex activeCell) rowIndex,
                               col = min (ac_cellIndex activeCell) cellIndex\<rparr>,
                  sel_end = \<lparr>row = max (ac_rowIndex activeCell) rowIndex,
                             col = max (ac_cellIndex activeCell) cellIndex\<rparr>\<rparr>\<rparr>
         | None \<Rightarrow>
             t\<lparr>tbl_activeCell := Some newActiveCell,
               tbl_selection := Some \<lparr>sel_start = \<lparr>row = rowIndex, col = cellIndex\<rparr>,
                                       sel_end = \<lparr>row = rowIndex, col = cellIndex\<rparr>\<rparr>\<rparr>)"

definition clickCell :: "SheetData list \<Rightarrow> bool \<Rightarrow> nat \<Rightarrow> nat \<Rightarrow> TableState \<Rightarrow> TableState" where
  "clickCell sheets shiftKey rowIndex cellIndex t =
     (if cellExists sheets (tbl_activeSheetIndex t) rowIndex cellIndex
      then handleCellClick shiftKey rowIndex cellIndex t
      else t)"

text \<open>
  The toolbar reads the style of the active cell (\<open>{}\<close> when there is none). Its Bold
  button passes \<open>{bold: !style.bold}\<close>, with the active sheet and the selection, to
  \<open>handleStyleChange\<close>.
\<close>

definition activeCellData :: "SheetData list \<Rightarrow> TableState \<Rightarrow> CellData option" where
  "activeCellData sheets t =
     (case tbl_activeCell t of
        None \<Rightarrow> None
      | Some activeCell \<Rightarrow>
          if cellExists sheets (ac_sheetIndex activeCell) (ac_rowIndex activeCell) (ac_cellIndex activeCell)
          then Some (sheet_data (sheets ! ac_sheetIndex activeCell)
                       ! ac_rowIndex activeCell ! ac_cellIndex activeCell)
          else None)"

definition boldButton :: "CellData option \<Rightarrow> StylePatch" where
  "boldButton cellData =
     (let style = (case cellData of
                     None \<Rightarrow> emptyStyle
                   | Some cell \<Rightarrow> (case cell_style cell of None \<Rightarrow> emptyStyle | Some st \<Rightarrow> st))
      in noPatch\<lparr>patch_bold := Some (Some (bold style \<noteq> Some True))\<rparr>)"

definition clickBold ::
  "SheetData list \<Rightarrow> TableState \<Rightarrow> SheetData list option \<Rightarrow> JsError + SheetData list option" where
  "clickBold sheets t editedData =
     handleStyleChange (tbl_activeSheetIndex t) (tbl_selection t)
       (boldButton (activeCellData sheets t)) editedData"

section \<open>Page ranges (\<open>parsePageRange\<close>)\<close>

text \<open>
  The numbers of \<open>parsePageRange\<close> are what \<open>parseInt\<close> returns and what \<open>i++\<close>
  makes of them. \<open>i++\<close> adds one and converts, so it leaves \<open>2^53\<close> where it is.
\<close>

fun isPage :: "JsNumber \<Rightarrow> int \<Rightarrow> bool" where
  "isPage (Fin z) maxPages = (z > 0 \<and> z \<le> maxPages)"
| "isPage _ maxPages = False"

fun pageOf :: "JsNumber \<Rightarrow> int" where
  "pageOf (Fin z) = z"
| "pageOf _ = 0"

text \<open>
  \<open>trim\<close> and \<open>parseInt\<close> skip white space: among the 8-bit code units, the tab, the
  line feed, the vertical tab, the form feed, the carriage return, the space and the
  no-break space. \<open>split\<close> cuts a string at every occurrence of the separator.
\<close>

definition isWhiteSpace :: "char \<Rightarrow> bool" where
  "isWhiteSpace c = (c \<in> {CHR 0x09, CHR 0x0A, CHR 0x0B, CHR 0x0C, CHR 0x0D, CHR 0x20, CHR 0xA0})"

definition trim :: "string \<Rightarrow> string" where
  "trim s = rev (dropWhile isWhiteSpace (rev (dropWhile isWhiteSpace s)))"

fun split :: "char \<Rightarrow> string \<Rightarrow> string list" where
  "split sep [] = [[]]"
| "split sep (c # cs) =
     (if c = sep then [] # split sep cs
      else (case split sep cs of [] \<Rightarrow> [[c]] | p # ps \<Rightarrow> (c # p) # ps))"

definition isDigit :: "char \<Rightarrow> bool" where
  "isDigit c = (c \<in> set ''0123456789'')"

definition digitValue :: "char \<Rightarrow> nat" where
  "digitValue c = of_char c - 48"

text \<open>
  \<open>parseInt(s, 10)\<close>: white space, an optional sign, then the longest run of decimal
  digits; \<open>NaN\<close> when there is no digit; whatever follows the digits is ignored.
\<close>

definition parseInt :: "string \<Rightarrow> JsNumber" where
  "parseInt inputString =
     (let s = dropWhile isWhiteSpace inputString;
          negative = (s \<noteq> [] \<and> hd s = CHR ''-'');
          s' = (if s \<noteq> [] \<and> (hd s = CHR ''+'' \<or> hd s = CHR ''-'') then tl s else s);
          z = takeWhile isDigit s'
      in if z = [] then NaN
         else (let mathInt = int (foldl (\<lambda>acc d. 10 * acc + digitValue d) 0 z)
               in toNumber (if negative then - mathInt else mathInt)))"

text \<open>
  \<open>pages\<close> is a \<open>Set\<close> of numbers, kept in insertion order. The \<open>for\<close> loop over a
  range may run forever, so it is a partial function: \<open>None\<close> means that it never returns.
\<close>

definition setAdd :: "int \<Rightarrow> int list \<Rightarrow> int list" where
  "setAdd x pages = (if x \<in> set pages then pages else pages @ [x])"

partial_function (option) forLoop :: "JsNumber \<Rightarrow> JsNumber \<Rightarrow> int \<Rightarrow> int list \<Rightarrow> int list option" where
  "forLoop i end maxPages pages =
     (if lessEq i end
      then forLoop (increment i) end maxPages
             (if isPage i maxPages then setAdd (pageOf i) pages else pages)
      else Some pages)"

fun forParts :: "string list \<Rightarrow> int \<Rightarrow> int list \<Rightarrow> int list option" where
  "forParts [] maxPages pages = Some pages"
| "forParts (part # parts) maxPages pages =
     (if CHR ''-'' \<in> set part
      then (case map (\<lambda>s. parseInt (trim s)) (split CHR ''-'' part) of
              start # end # _ \<Rightarrow>
                if \<not> isNaN start \<and> \<not> isNaN end
                then (case forLoop start end maxPages pages of
                        None \<Rightarrow> None
                      | Some pages' \<Rightarrow> forParts parts maxPages pages')
                else forParts parts maxPages pages
            | _ \<Rightarrow> forParts parts maxPages pages)
      else (let page = parseInt (trim part)
            in if \<not> isNaN page \<and> isPage page maxPages
               then forParts parts maxPages (setAdd (pageOf page) pages)
               else forParts parts maxPages pages))"

text \<open>
  \<open>maxPages\<close> is a page count or a sheet count. \<open>Array.from({length: maxPages}, ...)\<close>
  is the list \<open>[1..maxPages]\<close>, and sorting with \<open>(a, b) => a - b\<close> sorts numerically.
\<close>

definition parsePageRange :: "string \<Rightarrow> int \<Rightarrow> int list option" where
  "parsePageRange rangeStr maxPages =
     (if trim rangeStr = [] then Some [1..maxPages]
      else map_option sort (forParts (split CHR '','' rangeStr) maxPages []))"

text \<open>
  A range expression is bounded when the end of each of its ranges, where both ends are
  numbers, is below \<open>2^53\<close>.
\<close>

fun belowLimit :: "JsNumber \<Rightarrow> bool" where
  "belowLimit (Fin e) = (e < 2 ^ 53)"
| "belowLimit _ = False"

definition boundedPart :: "string \<Rightarrow> bool" where
  "boundedPart part =
     (case map (\<lambda>s. parseInt (trim s)) (split CHR ''-'' part) of
        start # end # _ \<Rightarrow> isNaN start \<or> isNaN end \<or> belowLimit end
      | _ \<Rightarrow> True)"

definition boundedRanges :: "string \<Rightarrow> bool" where
  "boundedRanges rangeStr = list_all boundedPart (split CHR '','' rangeStr)"

section \<open>Downloading (\<open>handleDownload\<close>)\<close>

text \<open>
  The writers of the output file are outside the program: building and saving the
  workbook (SheetJS) and building and saving the document from the chosen sheets (jsPDF).
  Each either completes or throws.
\<close>

record Writers =
  writeWorkbook :: "SheetData list \<Rightarrow> string \<Rightarrow> Thrown option"
  writePdf :: "SheetData list \<Rightarrow> string \<Rightarrow> PdfOptions \<Rightarrow> Thrown option"

definition toLowerCase :: "char \<Rightarrow> char" where
  "toLowerCase c =
     (if c \<in> set ''ABCDEFGHIJKLMNOPQRSTUVWXYZ'' then char_of (of_char c + (32::nat)) else c)"

text \<open>\<open>name.replace(/\.(ext1|ext2)$/i, '')\<close>: the first extension that ends the name is cut.\<close>

fun stripExtension :: "string list \<Rightarrow> string \<Rightarrow> string" where
  "stripExtension [] name = name"
| "stripExtension (ext # exts) name =
     (if length ext \<le> length name \<and>
         map toLowerCase (drop (length name - length ext) name) = ext
      then take (length name - length ext) name
      else stripExtension exts name)"

definition noSheetsMessage :: "string option \<Rightarrow> string" where
  "noSheetsMessage rangeText =
     ''No sheets match the specified range: '' @ [CHR 0x22] @
     (case rangeText of None \<Rightarrow> ''undefined'' | Some r \<Rightarrow> r) @
     [CHR 0x22] @ ''. Please check your input.''"

text \<open>
  \<open>downloadPdfFromSheets\<close>: \<open>None\<close> when \<open>parsePageRange\<close> never returns, otherwise
  the value it throws, if any.
\<close>

definition downloadPdfFromSheets ::
  "Writers \<Rightarrow> SheetData list \<Rightarrow> string \<Rightarrow> PdfOptions \<Rightarrow> string option \<Rightarrow> Thrown option option" where
  "downloadPdfFromSheets w sheets name options rangeText =
     (let totalSheets = int (length sheets) in
      case parsePageRange (case rangeText of None \<Rightarrow> [] | Some r \<Rightarrow> r) totalSheets of
        None \<Rightarrow> None
      | Some selectedSheetNumbers \<Rightarrow>
          (let sheetsToProcess =
                 map fst (filter (\<lambda>(sheet, index). int index + 1 \<in> set selectedSheetNumbers)
                            (zip sheets [0 ..< length sheets]))
           in if length sheetsToProcess = 0
              then Some (Some (ErrorObj (noSheetsMessage rangeText)))
              else Some (writePdf w sheetsToProcess name options)))"

text \<open>The \<open>try\<close> block of \<open>handleDownload\<close>, for a job that has sheets.\<close>

definition tryDownload :: "Writers \<Rightarrow> ProcessJob \<Rightarrow> SheetData list \<Rightarrow> Thrown option option" where
  "tryDownload w job sheets =
     (case conversionMode job of
        PdfToExcel \<Rightarrow>
          Some (writeWorkbook w sheets (stripExtension [''.pdf''] (fileName job) @ ''.xlsx''))
      | ExcelToPdf \<Rightarrow>
          downloadPdfFromSheets w sheets
            (stripExtension [''.xlsx'', ''.xls''] (fileName job) @ ''.pdf'')
            (case pdfOptions job of None \<Rightarrow> DEFAULT_PDF_OPTIONS | Some options \<Rightarrow> options)
            (pageRange job))"

definition downloadErrorMessage :: "Thrown \<Rightarrow> string" where
  "downloadErrorMessage thrown =
     (case thrown of
        ErrorObj message \<Rightarrow> message
      | NonError \<Rightarrow> ''Failed to generate the output file.'')"

definition handleDownload :: "Writers \<Rightarrow> ProcessJob \<Rightarrow> AppState \<Rightarrow> AppState option" where
  "handleDownload w job s =
     (case extractedSheets job of
        None \<Rightarrow> Some s
      | Some sheets \<Rightarrow>
          (case tryDownload w job sheets of
             None \<Rightarrow> None
           | Some None \<Rightarrow> Some s
           | Some (Some thrown) \<Rightarrow>
               Some (downloadFailed (job_id job) (downloadErrorMessage thrown) s)))"


definition oneCellSheet :: "string \<Rightarrow> SheetData" where
  "oneCellSheet name = \<lparr>sheetName = name, sheet_data = [[plainCell ''h''], [plainCell ''v'']]\<rparr>"



section \<open>Theorems\<close>

lemma restoreJob_file [simp]: "job_file (restoreJob job) = None"
  by (simp add: restoreJob_def)

lemma clickRetry_no_file: "job_file job = None \<Longrightarrow> clickRetry job s = s"
  by (simp add: clickRetry_def retryButtonDisabled_def)


lemma run_reachable: "reachable s \<Longrightarrow> run es s = Some s' \<Longrightarrow> reachable s'"
  by (induction es arbitrary: s) (auto split: if_splits intro: reachable.step)

subsection \<open>The counter and the in-flight runs\<close>

lemma activeJobsCount_updateJob [simp]: "activeJobsCount (updateJob i f s) = activeJobsCount s"
  by (simp add: updateJob_def)
lemma inflight_updateJob [simp]: "inflight (updateJob i f s) = inflight s"
  by (simp add: updateJob_def)
lemma length_jobs_updateJob [simp]: "length (jobs (updateJob i f s)) = length (jobs s)"
  by (simp add: updateJob_def)

lemma inflight_applyAction [simp]: "inflight (applyAction a s) = inflight s"
  by (cases a) simp_all

lemma activeJobsCount_applyAction:
  "activeJobsCount (applyAction a s) =
     (if a = IncActive then activeJobsCount s + 1
      else if a = DecActive then activeJobsCount s - 1 else activeJobsCount s)"
  by (cases a) simp_all

lemma tryBlock_counter_free:
  "tryBlock env job f = (tried, thrown) \<Longrightarrow> IncActive \<notin> set tried \<and> DecActive \<notin> set tried"
  by (auto simp: tryBlock_def Let_def split: ConversionMode.splits prod.splits sum.splits if_splits)

lemma catchBlock_counter_free: "IncActive \<notin> set (catchBlock i t) \<and> DecActive \<notin> set (catchBlock i t)"
  by (simp add: catchBlock_def)

lemma processJob_shape:
  assumes "job_file job = Some f"
  shows "\<exists>body. processJob env job = IncActive # body @ [DecActive] \<and>
                IncActive \<notin> set body \<and> DecActive \<notin> set body"
proof -
  obtain tried thrown where t: "tryBlock env job f = (tried, thrown)"
    by (cases "tryBlock env job f")
  let ?c = "case thrown of None \<Rightarrow> [] | Some t \<Rightarrow> catchBlock (job_id job) t"
  have c: "IncActive \<notin> set ?c \<and> DecActive \<notin> set ?c"
    by (cases thrown) (simp_all add: catchBlock_counter_free)
  have "processJob env job = IncActive # (tried @ ?c) @ [DecActive]"
    using assms t by (simp add: processJob_def)
  moreover have "IncActive \<notin> set (tried @ ?c) \<and> DecActive \<notin> set (tried @ ?c)"
    using tryBlock_counter_free[OF t] c by simp
  ultimately show ?thesis by blast
qed

lemma processJob_missing:
  "job_file job = None \<Longrightarrow> processJob env job = [SetFileMissing (job_id job)]"
  by (simp add: processJob_def)

lemma fold_applyAction_counter_free:
  "IncActive \<notin> set as \<Longrightarrow> DecActive \<notin> set as \<Longrightarrow>
   activeJobsCount (fold applyAction as s) = activeJobsCount s"
  by (induction as arbitrary: s) (auto simp: activeJobsCount_applyAction)

lemma runActions_processJob_counter:
  "activeJobsCount (runActions (processJob env job) s) = activeJobsCount s"
proof (cases "job_file job")
  case None
  then show ?thesis by (simp add: processJob_missing runActions_def)
next
  case (Some f)
  from processJob_shape[OF Some, of env] obtain body where
    b: "processJob env job = IncActive # body @ [DecActive]"
       "IncActive \<notin> set body" "DecActive \<notin> set body" by blast
  show ?thesis
    by (simp add: b runActions_def fold_applyAction_counter_free)
qed

lemma pendingRun_body: "IncActive \<notin> set body \<Longrightarrow> DecActive \<notin> set body \<Longrightarrow> pendingRun (body @ [DecActive])"
  by (simp add: pendingRun_def)

lemma dispatch_cases:
  "(job_file job = None \<and> dispatch env job s = applyAction (SetFileMissing (job_id job)) s) \<or>
   (\<exists>r. job_file job \<noteq> None \<and> pendingRun r \<and>
        dispatch env job s = (applyAction IncActive s)\<lparr>inflight := inflight s @ [r]\<rparr>)"
proof (cases "job_file job")
  case None
  then show ?thesis by (simp add: dispatch_def processJob_missing)
next
  case (Some f)
  from processJob_shape[OF Some, of env] obtain body where
    b: "processJob env job = IncActive # body @ [DecActive]"
       "IncActive \<notin> set body" "DecActive \<notin> set body" by blast
  have "dispatch env job s = (applyAction IncActive s)\<lparr>inflight := inflight s @ [body @ [DecActive]]\<rparr>"
    by (simp add: dispatch_def b)
  with pendingRun_body[OF b(2,3)] Some show ?thesis by blast
qed

lemma fold_dispatch_counter:
  "activeJobsCount s = int (length (inflight s)) \<Longrightarrow> \<forall>r \<in> set (inflight s). pendingRun r \<Longrightarrow>
   (let s' = fold (dispatch env) js s in
      activeJobsCount s' = int (length (inflight s')) \<and>
      (\<forall>r \<in> set (inflight s'). pendingRun r) \<and>
      activeJobsCount s' \<le> activeJobsCount s + int (length js))"
proof (induction js arbitrary: s)
  case Nil
  then show ?case by simp
next
  case (Cons j js)
  from dispatch_cases[of j env s]
  have 1: "activeJobsCount (dispatch env j s) = int (length (inflight (dispatch env j s)))"
    and 2: "\<forall>r \<in> set (inflight (dispatch env j s)). pendingRun r"
    and 3: "activeJobsCount (dispatch env j s) \<le> activeJobsCount s + 1"
    using Cons.prems by auto
  from Cons.IH[OF 1 2] 3 show ?case by (auto simp: Let_def)
qed

lemma scheduler_counterInv: "counterInv s \<Longrightarrow> counterInv (scheduler env s)"
proof -
  assume inv: "counterInv s"
  show ?thesis
  proof (cases "MAX_CONCURRENT_JOBS - activeJobsCount s \<le> 0 \<or> jobsToStart s = []")
    case True
    then show ?thesis using inv by (auto simp: scheduler_def Let_def)
  next
    case False
    let ?m = "markProcessing (jobsToStart s) s"
    have eq: "scheduler env s = fold (dispatch env) (jobsToStart s) ?m"
      using False by (auto simp: scheduler_def Let_def)
    have a: "activeJobsCount ?m = int (length (inflight ?m))"
      and b: "\<forall>r \<in> set (inflight ?m). pendingRun r"
      using inv by (auto simp: counterInv_def markProcessing_def)
    have len: "int (length (jobsToStart s)) \<le> MAX_CONCURRENT_JOBS - activeJobsCount s"
      using False by (auto simp: jobsToStart_def min_def)
    from fold_dispatch_counter[OF a b, of env "jobsToStart s"] len
    show ?thesis
      by (auto simp: counterInv_def eq Let_def markProcessing_def)
  qed
qed

lemma pendingRun_Cons:
  "pendingRun (a # rest) \<Longrightarrow>
   (rest = [] \<and> a = DecActive) \<or> (rest \<noteq> [] \<and> a \<noteq> DecActive \<and> a \<noteq> IncActive \<and> pendingRun rest)"
  by (cases rest) (auto simp: pendingRun_def)

lemma pipelineStep_counterInv: "counterInv s \<Longrightarrow> counterInv (pipelineStep i s)"
proof -
  assume inv: "counterInv s"
  show ?thesis
  proof (cases "i < length (inflight s)")
    case False
    then show ?thesis using inv by (simp add: pipelineStep_def)
  next
    case True
    then have mem: "inflight s ! i \<in> set (inflight s)" by simp
    then have pr: "pendingRun (inflight s ! i)" using inv by (simp add: counterInv_def)
    then obtain a rest where ar: "inflight s ! i = a # rest"
      by (cases "inflight s ! i") (auto simp: pendingRun_def)
    have sub: "set (take i (inflight s) @ drop (Suc i) (inflight s)) \<subseteq> set (inflight s)"
      by (auto dest: in_set_takeD in_set_dropD)
    have len: "length (take i (inflight s) @ drop (Suc i) (inflight s)) = length (inflight s) - 1"
      using True by simp
    from pendingRun_Cons[OF pr[unfolded ar]] show ?thesis
    proof
      assume "rest = [] \<and> a = DecActive"
      then show ?thesis
        using inv True sub len
        by (auto simp: pipelineStep_def ar counterInv_def Let_def simp del: set_append)
    next
      assume h: "rest \<noteq> [] \<and> a \<noteq> DecActive \<and> a \<noteq> IncActive \<and> pendingRun rest"
      have "\<forall>r \<in> set ((inflight s)[i := rest]). pendingRun r"
        using inv h by (auto simp: counterInv_def dest!: set_update_subset_insert[THEN subsetD])
      then show ?thesis
        using inv True h
        by (auto simp: pipelineStep_def ar counterInv_def Let_def activeJobsCount_applyAction)
    qed
  qed
qed

lemma fire_counterInv: "counterInv s \<Longrightarrow> counterInv (fire e s)"
proof (cases e)
  case (EvScheduler env)
  assume "counterInv s" then show ?thesis by (simp add: EvScheduler scheduler_counterInv)
next
  case (EvPipelineStep i)
  assume "counterInv s" then show ?thesis by (simp add: EvPipelineStep pipelineStep_counterInv)
qed (auto simp: counterInv_def handleFileSelect_def thumbnailReady_def handleClearAll_def
      switchConversionMode_def handleClearCompleted_def downloadFailed_def clickRetry_def
      handleRetry_def handlePageRangeChange_def handleThumbnailCycle_def handleSaveChanges_def
      handleSavePdfOptions_def handleToggleSelection_def handleToggleSelectAll_def
      reconcileSelection_def clearSelection_def handleDeleteSelected_def handleRetrySelected_def
      Let_def)

lemma reachable_counterInv: "reachable s \<Longrightarrow> counterInv s"
proof (induction rule: reachable.induct)
  case (start saved)
  show ?case by (simp add: counterInv_def initialState_def MAX_CONCURRENT_JOBS_def)
next
  case (step s e)
  then show ?case by (simp add: fire_counterInv)
qed

lemma run_exampleEvents: "run exampleEvents (initialState NoItem) = Some exampleFinal"
  by (simp add: exampleEvents_def exampleFinal_def initialState_def handleFileSelect_def isActive_def scheduler_def
      MAX_CONCURRENT_JOBS_def jobsToStart_def markProcessing_def dispatch_def processJob_def
      tryBlock_def unreadableEnv_def catchBlock_def newJob_def Let_def pipelineStep_def updateJob_def)

lemma reachable_exampleFinal: "reachable exampleFinal"
  using run_reachable[OF reachable.start run_exampleEvents] .

lemma filesInv_map:
  assumes "filesInv s" and "jobs s' = map g (jobs s)"
    and "\<And>j. job_file (g j) = job_file j"
    and "\<And>j. job_file j = None \<Longrightarrow> \<not> isActive j \<Longrightarrow> \<not> isActive (g j)"
  shows "filesInv s'"
  using assms unfolding filesInv_def by auto

lemma filesInv_filter: "filesInv s \<Longrightarrow> jobs s' = filter P (jobs s) \<Longrightarrow> filesInv s'"
  unfolding filesInv_def by auto

lemma filesInv_same_jobs: "filesInv s \<Longrightarrow> jobs s' = jobs s \<Longrightarrow> filesInv s'"
  unfolding filesInv_def by auto

lemma updateJob_filesInv:
  assumes "filesInv s" and "\<And>j. job_file (f j) = job_file j"
    and "\<And>j. \<not> isActive j \<Longrightarrow> \<not> isActive (f j)"
  shows "filesInv (updateJob i f s)"
  by (rule filesInv_map[OF assms(1), where g = "\<lambda>j. if job_id j = i then f j else j"])
     (simp_all add: updateJob_def assms)

lemma applyAction_filesInv: "filesInv s \<Longrightarrow> filesInv (applyAction a s)"
proof (cases a)
  case IncActive
  assume "filesInv s" then show ?thesis by (simp add: IncActive filesInv_def)
next
  case DecActive
  assume "filesInv s" then show ?thesis by (simp add: DecActive filesInv_def)
qed (auto intro!: updateJob_filesInv simp: isActive_def)

lemma applyAction_allFiles:
  "\<forall>j \<in> set (jobs s). job_file j \<noteq> None \<Longrightarrow> \<forall>j \<in> set (jobs (applyAction a s)). job_file j \<noteq> None"
  by (cases a) (auto simp: updateJob_def)

lemma dispatch_allFiles:
  "\<forall>j \<in> set (jobs s). job_file j \<noteq> None \<Longrightarrow> \<forall>j \<in> set (jobs (dispatch env job s)). job_file j \<noteq> None"
  using applyAction_allFiles[of s]
  by (auto simp: dispatch_def Let_def split: list.splits)

lemma fold_dispatch_allFiles:
  "\<forall>j \<in> set (jobs s). job_file j \<noteq> None \<Longrightarrow>
   \<forall>j \<in> set (jobs (fold (dispatch env) js s)). job_file j \<noteq> None"
proof (induction js arbitrary: s)
  case Nil then show ?case by simp
next
  case (Cons a js)
  show ?case using Cons.IH[OF dispatch_allFiles[OF Cons.prems, of env a]] by simp
qed

lemma scheduler_filesInv: "filesInv s \<Longrightarrow> filesInv (scheduler env s)"
proof -
  assume inv: "filesInv s"
  show ?thesis
  proof (cases "\<forall>j \<in> set (jobs s). job_file j \<noteq> None")
    case True
    then have "\<forall>j \<in> set (jobs (markProcessing (jobsToStart s) s)). job_file j \<noteq> None"
      by (auto simp: markProcessing_def)
    from fold_dispatch_allFiles[OF this, of env "jobsToStart s"] True
    show ?thesis by (auto simp: scheduler_def Let_def filesInv_def)
  next
    case False
    with inv have "\<forall>j \<in> set (jobs s). \<not> isActive j" by (auto simp: filesInv_def)
    then have "filter (\<lambda>job. status job = Queued) (jobs s) = []"
      by (auto simp: isActive_def filter_empty_conv)
    then have "scheduler env s = s" by (simp add: scheduler_def jobsToStart_def Let_def)
    with inv show ?thesis by simp
  qed
qed

lemma pipelineStep_filesInv: "filesInv s \<Longrightarrow> filesInv (pipelineStep i s)"
proof -
  assume inv: "filesInv s"
  have *: "\<And>a l. filesInv ((applyAction a s)\<lparr>inflight := l\<rparr>)"
    using applyAction_filesInv[OF inv] by (auto simp: filesInv_def)
  have **: "\<And>l. filesInv (s\<lparr>inflight := l\<rparr>)"
    using inv by (auto simp: filesInv_def)
  show ?thesis
    using inv * ** by (auto simp: pipelineStep_def Let_def split: list.splits)
qed

lemma retryable_needs_file:
  "retryable js jobId \<Longrightarrow> \<exists>j \<in> set js. job_file j \<noteq> None \<and> status j = Error \<and> job_id j = jobId"
  by (auto simp: retryable_def find_Some_iff split: option.splits)

lemma handleRetrySelected_no_files:
  assumes "\<forall>j \<in> set (jobs s). job_file j = None"
  shows "jobs (handleRetrySelected s) = jobs s"
proof -
  have "{jobId \<in> selectedJobIds s. retryable (jobs s) jobId} = {}"
    using assms by (auto dest: retryable_needs_file)
  then show ?thesis by (simp add: handleRetrySelected_def Let_def)
qed

lemma handleRetrySelected_filesInv: "filesInv s \<Longrightarrow> filesInv (handleRetrySelected s)"
proof -
  assume inv: "filesInv s"
  show ?thesis
  proof (cases "\<forall>j \<in> set (jobs s). job_file j \<noteq> None")
    case True
    then show ?thesis by (auto simp: handleRetrySelected_def Let_def filesInv_def)
  next
    case False
    with inv have nf: "\<forall>j \<in> set (jobs s). job_file j = None" by (auto simp: filesInv_def)
    show ?thesis
      using inv handleRetrySelected_no_files[OF nf] by (auto simp: filesInv_def)
  qed
qed

lemma clickRetry_filesInv: "filesInv s \<Longrightarrow> job \<in> set (jobs s) \<Longrightarrow> filesInv (clickRetry job s)"
  by (auto simp: clickRetry_def retryButtonDisabled_def retryButtonShown_def handleRetry_def
      filesInv_def)

lemma handleFileSelect_filesInv: "filesInv s \<Longrightarrow> filesInv (handleFileSelect files s)"
  by (auto simp: handleFileSelect_def Let_def filesInv_def newJob_def)

lemma cycleThumbnail_file [simp]: "job_file (cycleThumbnail dir job) = job_file job"
  by (simp add: cycleThumbnail_def Let_def split: option.splits)

lemma cycleThumbnail_status [simp]: "status (cycleThumbnail dir job) = status job"
  by (simp add: cycleThumbnail_def Let_def split: option.splits)

lemma handleThumbnailCycle_filesInv: "filesInv s \<Longrightarrow> filesInv (handleThumbnailCycle jobId dir s)"
  by (rule filesInv_map[where g = "\<lambda>j. if job_id j = jobId then cycleThumbnail dir j else j"])
     (simp_all add: handleThumbnailCycle_def isActive_def)

lemma fire_filesInv: "filesInv s \<Longrightarrow> enabled e s \<Longrightarrow> filesInv (fire e s)"
proof (cases e)
  case (EvScheduler env)
  assume "filesInv s" then show ?thesis by (simp add: EvScheduler scheduler_filesInv)
next
  case (EvPipelineStep i)
  assume "filesInv s" then show ?thesis by (simp add: EvPipelineStep pipelineStep_filesInv)
next
  case EvRetrySelected
  assume "filesInv s" then show ?thesis by (simp add: EvRetrySelected handleRetrySelected_filesInv)
next
  case (EvClickRetry job)
  assume "filesInv s" "enabled e s" then show ?thesis by (simp add: EvClickRetry clickRetry_filesInv)
next
  case (EvFileSelect files)
  assume "filesInv s" then show ?thesis by (simp add: EvFileSelect handleFileSelect_filesInv)
next
  case (EvThumbnailCycle jobId dir)
  assume "filesInv s" then show ?thesis by (simp add: EvThumbnailCycle handleThumbnailCycle_filesInv)
next
  case (EvDownloadFailed jobId message)
  assume "filesInv s" then show ?thesis
    by (simp add: EvDownloadFailed downloadFailed_def updateJob_filesInv isActive_def)
qed (auto simp: filesInv_def thumbnailReady_def handleClearAll_def
      switchConversionMode_def handleClearCompleted_def
      handlePageRangeChange_def handleSaveChanges_def
      handleSavePdfOptions_def handleToggleSelection_def handleToggleSelectAll_def
      reconcileSelection_def clearSelection_def handleDeleteSelected_def isActive_def
      Let_def)

lemma reachable_filesInv: "reachable s \<Longrightarrow> filesInv s"
proof (induction rule: reachable.induct)
  case (start saved)
  show ?case
    by (cases saved) (auto simp: filesInv_def initialState_def restoreJob_def isActive_def)
next
  case (step s e)
  then show ?case by (simp add: fire_filesInv)
qed

lemma in_set_map_if:
  "y \<in> set (map (\<lambda>x. if P x then f x else x) xs) \<Longrightarrow>
   (\<exists>x \<in> set xs. P x \<and> y = f x) \<or> (y \<in> set xs \<and> \<not> P y)"
  by (induction xs) (auto split: if_splits)

lemma length_jobs_applyAction [simp]: "length (jobs (applyAction a s)) = length (jobs s)"
  by (cases a) simp_all

lemma applyAction_never_requeues:
  "i < length (jobs s) \<Longrightarrow> status (jobs (applyAction a s) ! i) = Queued \<Longrightarrow> status (jobs s ! i) = Queued"
  by (cases a) (auto simp: updateJob_def split: if_splits)

lemma length_jobs_dispatch [simp]: "length (jobs (dispatch env job s)) = length (jobs s)"
  by (simp add: dispatch_def Let_def split: list.splits)

lemma dispatch_never_requeues:
  "i < length (jobs s) \<Longrightarrow> status (jobs (dispatch env job s) ! i) = Queued \<Longrightarrow> status (jobs s ! i) = Queued"
  by (auto simp: dispatch_def Let_def split: list.splits if_splits dest: applyAction_never_requeues)

lemma fold_dispatch_never_requeues:
  "length (jobs (fold (dispatch env) js s)) = length (jobs s) \<and>
   (i < length (jobs s) \<longrightarrow> status (jobs (fold (dispatch env) js s) ! i) = Queued \<longrightarrow>
      status (jobs s ! i) = Queued)"
proof (induction js arbitrary: s)
  case Nil then show ?case by simp
next
  case (Cons a js)
  from Cons.IH[of "dispatch env a s"] show ?case
    by (auto dest: dispatch_never_requeues)
qed

lemma scheduler_never_requeues:
  "length (jobs (scheduler env s)) = length (jobs s) \<and>
   (i < length (jobs s) \<longrightarrow> status (jobs (scheduler env s) ! i) = Queued \<longrightarrow>
      status (jobs s ! i) = Queued)"
proof -
  let ?m = "markProcessing (jobsToStart s) s"
  have m: "length (jobs ?m) = length (jobs s) \<and>
           (i < length (jobs s) \<longrightarrow> status (jobs ?m ! i) = Queued \<longrightarrow> status (jobs s ! i) = Queued)"
    by (auto simp: markProcessing_def split: if_splits)
  from fold_dispatch_never_requeues[of env "jobsToStart s" ?m i] m
  show ?thesis by (auto simp: scheduler_def Let_def)
qed

lemma reachable_no_file_not_active:
  assumes "reachable t" and "i < length (jobs t)" and "job_file (jobs t ! i) = None"
  shows "\<forall>j \<in> set (jobs t). job_file j = None \<and> \<not> isActive j"
proof -
  have "jobs t ! i \<in> set (jobs t)" using assms(2) by simp
  with assms(3) have "\<not> (\<forall>j \<in> set (jobs t). job_file j \<noteq> None)" by blast
  with reachable_filesInv[OF assms(1)] show ?thesis by (auto simp: filesInv_def)
qed

lemma reachable_restoredState: "reachable restoredState"
proof -
  have "run [EvToggleSelection (job_id (newJob PdfToExcel exampleFile))]
          (initialState (Snapshot [newJob PdfToExcel exampleFile])) = Some restoredState"
    by (simp add: restoredState_def)
  from run_reachable[OF reachable.start this] show ?thesis .
qed




lemma shape_length: "shape a = shape b \<Longrightarrow> length a = length b"
  unfolding shape_def by (rule map_eq_imp_length_eq)

lemma shape_nth:
  assumes "shape a = shape b" and "k < length a"
  shows "map length (sheet_data (a ! k)) = map length (sheet_data (b ! k))"
proof -
  have "shape a ! k = shape b ! k" using assms(1) by simp
  then show ?thesis using assms(2) shape_length[OF assms(1)] by (simp add: shape_def)
qed

lemma cellExists_shape: "shape a = shape b \<Longrightarrow> cellExists a k r c = cellExists b k r c"
proof -
  assume s: "shape a = shape b"
  have l: "length a = length b" by (rule shape_length[OF s])
  {
    assume k: "k < length a"
    have m: "map length (sheet_data (a ! k)) = map length (sheet_data (b ! k))"
      by (rule shape_nth[OF s k])
    have l1: "length (sheet_data (a ! k)) = length (sheet_data (b ! k))"
      using m by (rule map_eq_imp_length_eq)
    have "r < length (sheet_data (a ! k)) \<Longrightarrow>
          length (sheet_data (a ! k) ! r) = length (sheet_data (b ! k) ! r)"
    proof -
      assume r: "r < length (sheet_data (a ! k))"
      have "map length (sheet_data (a ! k)) ! r = map length (sheet_data (b ! k)) ! r"
        by (simp only: m)
      then show ?thesis using r l1 by simp
    qed
    with l1 have "(r < length (sheet_data (a ! k)) \<and> c < length (sheet_data (a ! k) ! r)) =
                  (r < length (sheet_data (b ! k)) \<and> c < length (sheet_data (b ! k) ! r))"
      by auto
  }
  then show ?thesis using l by (auto simp: cellExists_def)
qed

lemma set_rectangle: "((r, c) \<in> set (rectangle sel)) = inRectangle sel r c"
proof
  assume "(r, c) \<in> set (rectangle sel)"
  then show "inRectangle sel r c"
    by (auto simp: rectangle_def inRectangle_def less_Suc_eq_le simp del: upt_Suc)
next
  assume "inRectangle sel r c"
  then have a: "r \<in> set [row (sel_start sel) ..< Suc (row (sel_end sel))]"
    and b: "c \<in> set [col (sel_start sel) ..< Suc (col (sel_end sel))]"
    by (simp_all add: inRectangle_def less_Suc_eq_le del: upt_Suc)
  have "(r, c) \<in> set (map (\<lambda>c. (r, c)) [col (sel_start sel) ..< Suc (col (sel_end sel))])"
    using b by (simp del: upt_Suc)
  then show "(r, c) \<in> set (rectangle sel)"
    unfolding rectangle_def using a by (auto simp del: upt_Suc set_upt)
qed

lemma styleCell_ok:
  assumes "cellExists sheets k r c"
  shows "\<exists>sheets'. styleCell k style (r, c) sheets = Inr sheets' \<and> shape sheets' = shape sheets \<and>
           (\<forall>k' r' c'. cellExists sheets k' r' c' \<longrightarrow>
              sheet_data (sheets' ! k') ! r' ! c' =
                (if k' = k \<and> r' = r \<and> c' = c then restyle style (sheet_data (sheets ! k) ! r ! c)
                 else sheet_data (sheets ! k') ! r' ! c'))"
proof -
  let ?sheet = "sheets ! k" let ?rows = "sheet_data ?sheet"
  let ?row' = "(?rows ! r)[c := restyle style (?rows ! r ! c)]"
  let ?rows' = "?rows[r := ?row']"
  let ?s' = "sheets[k := ?sheet\<lparr>sheet_data := ?rows'\<rparr>]"
  have k: "k < length sheets" and r: "r < length ?rows" and c: "c < length (?rows ! r)"
    using assms by (simp_all add: cellExists_def)
  have e: "styleCell k style (r, c) sheets = Inr ?s'"
    using k r c by (simp add: styleCell_def Let_def)
  have ml: "map length ?rows' = map length ?rows"
  proof (rule nth_equalityI)
    show "length (map length ?rows') = length (map length ?rows)" by simp
  next
    fix i assume "i < length (map length ?rows')"
    then have i: "i < length ?rows" by simp
    show "map length ?rows' ! i = map length ?rows ! i"
      using i r by (cases "i = r") simp_all
  qed
  have sh: "shape ?s' = shape sheets"
  proof (rule nth_equalityI)
    show "length (shape ?s') = length (shape sheets)" by (simp add: shape_def)
  next
    fix i assume "i < length (shape ?s')"
    then have i: "i < length sheets" by (simp add: shape_def)
    show "shape ?s' ! i = shape sheets ! i"
      using i k ml by (cases "i = k") (simp_all add: shape_def)
  qed
  have pt: "\<forall>k' r' c'. cellExists sheets k' r' c' \<longrightarrow>
              sheet_data (?s' ! k') ! r' ! c' =
                (if k' = k \<and> r' = r \<and> c' = c then restyle style (sheet_data (sheets ! k) ! r ! c)
                 else sheet_data (sheets ! k') ! r' ! c')"
  proof (intro allI impI)
    fix k' r' c' assume a: "cellExists sheets k' r' c'"
    then have k': "k' < length sheets" and r': "r' < length (sheet_data (sheets ! k'))"
      and c': "c' < length (sheet_data (sheets ! k') ! r')" by (simp_all add: cellExists_def)
    show "sheet_data (?s' ! k') ! r' ! c' =
                (if k' = k \<and> r' = r \<and> c' = c then restyle style (sheet_data (sheets ! k) ! r ! c)
                 else sheet_data (sheets ! k') ! r' ! c')"
    proof (cases "k' = k")
      case False
      then show ?thesis using k' by simp
    next
      case True
      note kk = this
      show ?thesis
      proof (cases "r' = r")
        case False
        then show ?thesis using kk k r r' by simp
      next
        case True
        then show ?thesis using kk k r c c' by (cases "c' = c") simp_all
      qed
    qed
  qed
  show ?thesis using e sh pt by blast
qed

lemma restyle_idem: "restyle style (restyle style cell) = restyle style cell"
  by (simp add: restyle_def mergeStyle_def spread_def Let_def split: option.splits)

lemma styleCells_ok:
  "(\<And>r c. (r, c) \<in> set ps \<Longrightarrow> cellExists sheets k r c) \<Longrightarrow>
   \<exists>sheets'. styleCells k style ps sheets = Inr sheets' \<and> shape sheets' = shape sheets \<and>
      (\<forall>k' r' c'. cellExists sheets k' r' c' \<longrightarrow>
         sheet_data (sheets' ! k') ! r' ! c' =
           (if k' = k \<and> (r', c') \<in> set ps then restyle style (sheet_data (sheets ! k') ! r' ! c')
            else sheet_data (sheets ! k') ! r' ! c'))"
proof (induction ps arbitrary: sheets)
  case Nil
  then show ?case by simp
next
  case (Cons rc ps)
  obtain r c where rc: "rc = (r, c)" by (cases rc)
  have ex: "cellExists sheets k r c" using Cons.prems[of r c] rc by simp
  from styleCell_ok[OF ex, of style] obtain s1 where
    s1: "styleCell k style (r, c) sheets = Inr s1" "shape s1 = shape sheets"
    and p1: "\<And>k' r' c'. cellExists sheets k' r' c' \<Longrightarrow>
              sheet_data (s1 ! k') ! r' ! c' =
                (if k' = k \<and> r' = r \<and> c' = c then restyle style (sheet_data (sheets ! k) ! r ! c)
                 else sheet_data (sheets ! k') ! r' ! c')" by blast
  have ce: "\<And>k' r' c'. cellExists s1 k' r' c' = cellExists sheets k' r' c'"
    using cellExists_shape[OF s1(2)] by simp
  have "\<And>r c. (r, c) \<in> set ps \<Longrightarrow> cellExists s1 k r c" using Cons.prems ce by simp
  from Cons.IH[OF this] obtain s2 where
    s2: "styleCells k style ps s1 = Inr s2" "shape s2 = shape s1"
    and p2: "\<And>k' r' c'. cellExists s1 k' r' c' \<Longrightarrow>
         sheet_data (s2 ! k') ! r' ! c' =
           (if k' = k \<and> (r', c') \<in> set ps then restyle style (sheet_data (s1 ! k') ! r' ! c')
            else sheet_data (s1 ! k') ! r' ! c')" by blast
  have e: "styleCells k style (rc # ps) sheets = Inr s2" by (simp add: rc s1 s2)
  have sh: "shape s2 = shape sheets" by (simp add: s1 s2)
  have pt: "\<forall>k' r' c'. cellExists sheets k' r' c' \<longrightarrow>
         sheet_data (s2 ! k') ! r' ! c' =
           (if k' = k \<and> (r', c') \<in> set (rc # ps) then restyle style (sheet_data (sheets ! k') ! r' ! c')
            else sheet_data (sheets ! k') ! r' ! c')"
  proof (intro allI impI)
    fix k' r' c' assume a: "cellExists sheets k' r' c'"
    then have a1: "cellExists s1 k' r' c'" by (simp add: ce)
    show "sheet_data (s2 ! k') ! r' ! c' =
           (if k' = k \<and> (r', c') \<in> set (rc # ps) then restyle style (sheet_data (sheets ! k') ! r' ! c')
            else sheet_data (sheets ! k') ! r' ! c')"
      unfolding p2[OF a1] p1[OF a] by (auto simp: rc restyle_idem)
  qed
  show ?case using e sh pt by blast
qed

lemma restyle_value: "cell_value (restyle style cell) = cell_value cell"
  by (simp add: restyle_def Let_def)

lemma restyle_style:
  "cell_style (restyle style cell) =
     Some (mergeStyle (case cell_style cell of None \<Rightarrow> emptyStyle | Some st \<Rightarrow> st) style)"
  by (simp add: restyle_def Let_def)

lemma topRow_exists: "\<forall>r c. inRectangle topRow r c \<longrightarrow> cellExists raggedSheets 0 r c"
  by (auto simp: inRectangle_def topRow_def cellExists_def raggedSheets_def)

lemma bitLength_2_53: "bitLength 9007199254740992 = 54" "bitLength 9007199254740993 = 54"
  by (simp_all add: bitLength.simps)

lemma roundToDouble_small: "n < 2 ^ 53 \<Longrightarrow> roundToDouble n = n"
  by (simp add: roundToDouble_def)

lemma roundToDouble_2_53: "roundToDouble 9007199254740992 = 9007199254740992"
  "roundToDouble 9007199254740993 = 9007199254740992"
  by (simp_all add: roundToDouble_def bitLength_2_53 Let_def)

lemma toNumber_small: "0 \<le> z \<Longrightarrow> z < 2 ^ 53 \<Longrightarrow> toNumber z = Fin z"
proof -
  assume a: "0 \<le> z" "z < 2 ^ 53"
  then have n: "nat z < 2 ^ 53" by (simp add: nat_less_iff)
  then have r: "roundToDouble (nat z) = nat z" by (rule roundToDouble_small)
  have "(2::nat) ^ 53 < 2 ^ 1024" by simp
  with n have b: "\<not> (2::nat) ^ 1024 \<le> nat z" by linarith
  have "toNumber z = (if 2 ^ 1024 \<le> roundToDouble (nat z) then PosInfinity
                     else Fin (int (roundToDouble (nat z))))"
    using a by (simp add: toNumber_def Let_def)
  also have "\<dots> = Fin z" unfolding r using a b by simp
  finally show ?thesis .
qed

lemma toNumber_2_53: "toNumber 9007199254740992 = Fin 9007199254740992"
  "toNumber 9007199254740993 = Fin 9007199254740992"
  by (simp_all add: toNumber_def roundToDouble_2_53 Let_def)

lemma increment_below_2_53:
  assumes "0 \<le> s" and "s \<le> 2 ^ 53"
  shows "\<exists>s'. increment (Fin s) = Fin s' \<and> 0 \<le> s' \<and> s' \<le> 2 ^ 53"
proof -
  consider "s + 1 < 2 ^ 53" | "s + 1 = 9007199254740992" | "s + 1 = 9007199254740993"
    using assms by (simp add: ) linarith
  then show ?thesis
  proof cases
    case 1
    then have "toNumber (s + 1) = Fin (s + 1)" using assms by (intro toNumber_small) simp_all
    then show ?thesis using 1 assms by simp
  next
    case 2
    then show ?thesis by (simp add: toNumber_2_53)
  next
    case 3
    then show ?thesis by (simp add: toNumber_2_53)
  qed
qed

lemma forLoop_Some_not_stuck:
  assumes "forLoop i e maxPages pages = Some y"
  shows "\<not> (\<exists>s. i = Fin s \<and> 0 \<le> s \<and> s \<le> 2 ^ 53 \<and> e = Fin (2 ^ 53))"
proof (rule forLoop.raw_induct
    [where P = "\<lambda>i e m p y. \<not> (\<exists>s. i = Fin s \<and> 0 \<le> s \<and> s \<le> 2 ^ 53 \<and> e = Fin (2 ^ 53))",
     OF _ assms])
  fix loop :: "JsNumber \<Rightarrow> JsNumber \<Rightarrow> int \<Rightarrow> int list \<Rightarrow> int list option"
  fix i e maxPages pages y
  assume IH: "\<And>i e m p y. loop i e m p = Some y \<Longrightarrow>
                \<not> (\<exists>s. i = Fin s \<and> 0 \<le> s \<and> s \<le> 2 ^ 53 \<and> e = Fin (2 ^ 53))"
    and body: "(if lessEq i e
                then loop (increment i) e maxPages
                       (if isPage i maxPages then setAdd (pageOf i) pages else pages)
                else Some pages) = Some y"
  show "\<not> (\<exists>s. i = Fin s \<and> 0 \<le> s \<and> s \<le> 2 ^ 53 \<and> e = Fin (2 ^ 53))"
  proof
    assume "\<exists>s. i = Fin s \<and> 0 \<le> s \<and> s \<le> 2 ^ 53 \<and> e = Fin (2 ^ 53)"
    then obtain s where s: "i = Fin s" "0 \<le> s" "s \<le> 2 ^ 53" "e = Fin (2 ^ 53)" by blast
    from increment_below_2_53[OF s(2,3)] obtain s' where
      s': "increment (Fin s) = Fin s'" "0 \<le> s'" "s' \<le> 2 ^ 53" by blast
    have "loop (Fin s') e maxPages
            (if isPage i maxPages then setAdd (pageOf i) pages else pages) = Some y"
      using body s s' by simp
    from IH[OF this] s' s(4) show False by blast
  qed
qed

lemma forLoop_never_returns:
  "0 \<le> s \<Longrightarrow> s \<le> 2 ^ 53 \<Longrightarrow> forLoop (Fin s) (Fin (2 ^ 53)) maxPages pages = None"
  using forLoop_Some_not_stuck[of "Fin s" "Fin (2 ^ 53)" maxPages pages]
  by (cases "forLoop (Fin s) (Fin (2 ^ 53)) maxPages pages") auto

lemma parseInt_1: "parseInt ''1'' = Fin 1"
  by (simp add: parseInt_def isWhiteSpace_def isDigit_def digitValue_def toNumber_def roundToDouble_def)

lemma parseInt_2_53: "parseInt ''9007199254740992'' = Fin (2 ^ 53)"
  by (simp add: parseInt_def isWhiteSpace_def isDigit_def digitValue_def toNumber_2_53)

lemma setAdd_props:
  "distinct pages \<Longrightarrow> distinct (setAdd x pages)"
  "set (setAdd x pages) = insert x (set pages)"
  by (auto simp: setAdd_def)

lemma isPage_pageOf: "isPage i m \<Longrightarrow> 0 < pageOf i \<and> pageOf i \<le> m"
  by (cases i) simp_all

lemma forLoop_pages:
  assumes "forLoop i e maxPages pages = Some y"
  shows "(distinct pages \<longrightarrow> distinct y) \<and> set pages \<subseteq> set y \<and> set y \<subseteq> set pages \<union> {1..maxPages}"
proof (rule forLoop.raw_induct
    [where P = "\<lambda>i e m p y. (distinct p \<longrightarrow> distinct y) \<and> set p \<subseteq> set y \<and> set y \<subseteq> set p \<union> {1..m}",
     OF _ assms])
  fix loop :: "JsNumber \<Rightarrow> JsNumber \<Rightarrow> int \<Rightarrow> int list \<Rightarrow> int list option"
  fix i e maxPages pages y
  assume IH: "\<And>i e m p y. loop i e m p = Some y \<Longrightarrow>
                (distinct p \<longrightarrow> distinct y) \<and> set p \<subseteq> set y \<and> set y \<subseteq> set p \<union> {1..m}"
    and body: "(if lessEq i e
                then loop (increment i) e maxPages
                       (if isPage i maxPages then setAdd (pageOf i) pages else pages)
                else Some pages) = Some y"
  show "(distinct pages \<longrightarrow> distinct y) \<and> set pages \<subseteq> set y \<and> set y \<subseteq> set pages \<union> {1..maxPages}"
  proof (cases "lessEq i e")
    case False
    with body show ?thesis by simp
  next
    case True
    let ?p = "if isPage i maxPages then setAdd (pageOf i) pages else pages"
    from body True have "loop (increment i) e maxPages ?p = Some y" by simp
    from IH[OF this] have
      a: "distinct ?p \<longrightarrow> distinct y" and b: "set ?p \<subseteq> set y"
      and c: "set y \<subseteq> set ?p \<union> {1..maxPages}" by blast+
    have d: "distinct pages \<longrightarrow> distinct ?p" by (simp add: setAdd_props)
    have e: "set pages \<subseteq> set ?p" by (auto simp: setAdd_props)
    have f: "set ?p \<subseteq> set pages \<union> {1..maxPages}"
      using isPage_pageOf[of i maxPages] by (auto simp: setAdd_props)
    show ?thesis using a b c d e f by blast
  qed
qed

lemma forParts_pages:
  "forParts parts maxPages pages = Some y \<Longrightarrow>
   (distinct pages \<longrightarrow> distinct y) \<and> set y \<subseteq> set pages \<union> {1..maxPages}"
proof (induction parts arbitrary: pages)
  case Nil
  then show ?case by simp
next
  case (Cons part parts)
  show ?case
  proof (cases "CHR ''-'' \<in> set part")
    case False
    let ?page = "parseInt (trim part)"
    show ?thesis
    proof (cases "\<not> isNaN ?page \<and> isPage ?page maxPages")
      case True
      with Cons.prems False
      have "forParts parts maxPages (setAdd (pageOf ?page) pages) = Some y" by (simp add: Let_def)
      from Cons.IH[OF this] isPage_pageOf[of ?page maxPages] True
      show ?thesis by (auto simp: setAdd_props)
    next
      case F2: False
      with Cons.prems False have "forParts parts maxPages pages = Some y" by (auto simp: Let_def)
      from Cons.IH[OF this] show ?thesis .
    qed
  next
    case True
    let ?nums = "map (\<lambda>s. parseInt (trim s)) (split CHR ''-'' part)"
    show ?thesis
    proof (cases "\<exists>start end rest. ?nums = start # end # rest \<and> \<not> isNaN start \<and> \<not> isNaN end")
      case F3: False
      with Cons.prems True have "forParts parts maxPages pages = Some y"
        by (auto split: list.splits if_splits)
      from Cons.IH[OF this] show ?thesis .
    next
      case T3: True
      then obtain st en rest where
        n: "?nums = st # en # rest" "\<not> isNaN st" "\<not> isNaN en" by auto
      from Cons.prems True n obtain pages' where
        l: "forLoop st en maxPages pages = Some pages'"
        and r: "forParts parts maxPages pages' = Some y"
        by (auto split: option.splits)
      from forLoop_pages[OF l] Cons.IH[OF r] show ?thesis by blast
    qed
  qed
qed

lemma parsePageRange_result:
  assumes "parsePageRange rangeStr maxPages = Some pages"
  shows "sorted_wrt (<) pages \<and> distinct pages \<and> set pages \<subseteq> {1..maxPages}"
proof (cases "trim rangeStr = []")
  case True
  with assms have "pages = [1..maxPages]" by (simp add: parsePageRange_def)
  then show ?thesis by (simp add: strict_sorted_iff)
next
  case False
  with assms obtain y where y: "forParts (split CHR '','' rangeStr) maxPages [] = Some y"
    and p: "pages = sort y" by (auto simp: parsePageRange_def)
  from forParts_pages[OF y] show ?thesis by (simp add: p strict_sorted_iff)
qed

lemma parsePageRange_blank:
  "trim rangeStr = [] \<Longrightarrow> parsePageRange rangeStr maxPages = Some [1..maxPages]"
  by (simp add: parsePageRange_def)

lemma toNumber_upto_2_53: "0 \<le> z \<Longrightarrow> z \<le> 2 ^ 53 \<Longrightarrow> toNumber z = Fin z"
proof (cases "z < 2 ^ 53")
  case True
  assume "0 \<le> z" with True show ?thesis by (rule toNumber_small[rotated])
next
  case False
  assume "z \<le> 2 ^ 53" with False have "z = 9007199254740992" by simp
  then show ?thesis by (simp add: toNumber_2_53)
qed

lemma forLoop_returns:
  "0 \<le> s \<Longrightarrow> e < 2 ^ 53 \<Longrightarrow> \<exists>y. forLoop (Fin s) (Fin e) maxPages pages = Some y"
proof (induction "nat (e + 1 - s)" arbitrary: s pages)
  case 0
  then have "\<not> s \<le> e" by simp
  then show ?case by (subst forLoop.simps) simp
next
  case (Suc n)
  then have le: "s \<le> e" by linarith
  with Suc.prems have "toNumber (s + 1) = Fin (s + 1)" by (intro toNumber_upto_2_53) simp_all
  then have inc: "increment (Fin s) = Fin (s + 1)" by simp
  have "n = nat (e + 1 - (s + 1))" using Suc.hyps(2) by linarith
  from Suc.hyps(1)[OF this _ Suc.prems(2)] Suc.prems(1)
  obtain y where "forLoop (Fin (s + 1)) (Fin e) maxPages
      (if isPage (Fin s) maxPages then setAdd (pageOf (Fin s)) pages else pages) = Some y"
    by fastforce
  then show ?case using le inc by (subst forLoop.simps) simp
qed

lemma split_no_sep: "p \<in> set (split sep s) \<Longrightarrow> sep \<notin> set p"
proof (induction s arbitrary: p)
  case Nil
  then show ?case by simp
next
  case (Cons c cs)
  show ?case
  proof (cases "c = sep")
    case True
    with Cons show ?thesis by auto
  next
    case False
    obtain q qs where q: "split sep cs = q # qs"
      by (cases "split sep cs") (cases cs, auto split: if_splits list.splits)
    with Cons.prems False have "p = c # q \<or> p \<in> set qs" by auto
    then show ?thesis
    proof
      assume "p = c # q"
      moreover have "sep \<notin> set q" using Cons.IH[of q] q by simp
      ultimately show ?thesis using False by auto
    next
      assume "p \<in> set qs"
      then show ?thesis using Cons.IH[of p] q by simp
    qed
  qed
qed

lemma set_trim: "set (trim s) \<subseteq> set s"
proof
  fix x assume "x \<in> set (trim s)"
  then have "x \<in> set (dropWhile isWhiteSpace (rev (dropWhile isWhiteSpace s)))"
    by (simp add: trim_def)
  then have "x \<in> set (rev (dropWhile isWhiteSpace s))" by (rule set_dropWhileD)
  then have "x \<in> set (dropWhile isWhiteSpace s)" by simp
  then show "x \<in> set s" by (rule set_dropWhileD)
qed

lemma toNumber_nonneg:
  "0 \<le> z \<Longrightarrow> toNumber z = PosInfinity \<or> (\<exists>s\<ge>0. toNumber z = Fin s)"
  by (simp add: toNumber_def Let_def)

lemma parseInt_unsigned:
  assumes "CHR ''-'' \<notin> set str"
  shows "parseInt str = NaN \<or> parseInt str = PosInfinity \<or> (\<exists>s\<ge>0. parseInt str = Fin s)"
proof -
  let ?s = "dropWhile isWhiteSpace str"
  have "set ?s \<subseteq> set str" by (auto dest: set_dropWhileD)
  with assms have "\<not> (?s \<noteq> [] \<and> hd ?s = CHR ''-'')"
    by (cases ?s) auto
  then show ?thesis
    using toNumber_nonneg by (auto simp: parseInt_def Let_def)
qed

lemma forLoop_bounded_returns:
  assumes "start = NaN \<or> start = PosInfinity \<or> (\<exists>s\<ge>0. start = Fin s)"
    and "\<not> isNaN start" and "belowLimit end"
  shows "\<exists>y. forLoop start end maxPages pages = Some y"
proof -
  from assms(3) obtain e where e: "end = Fin e" "e < 2 ^ 53" by (cases "end") auto
  from assms(1,2) consider "start = PosInfinity" | s where "0 \<le> s" "start = Fin s" by auto
  then show ?thesis
  proof cases
    case 1
    then show ?thesis by (subst forLoop.simps) (simp add: e)
  next
    case 2
    then show ?thesis using forLoop_returns[OF 2(1) e(2)] e by simp
  qed
qed

lemma forParts_returns:
  "list_all boundedPart parts \<Longrightarrow> \<exists>y. forParts parts maxPages pages = Some y"
proof (induction parts arbitrary: pages)
  case Nil
  then show ?case by simp
next
  case (Cons part parts)
  then have bp: "boundedPart part" and rest: "list_all boundedPart parts" by simp_all
  note IH = Cons.IH[OF rest]
  show ?case
  proof (cases "CHR ''-'' \<in> set part")
    case False
    then show ?thesis using IH by (simp add: Let_def)
  next
    case True
    let ?nums = "map (\<lambda>s. parseInt (trim s)) (split CHR ''-'' part)"
    show ?thesis
    proof (cases "\<exists>st en rest. ?nums = st # en # rest \<and> \<not> isNaN st \<and> \<not> isNaN en")
      case F: False
      then have "forParts (part # parts) maxPages pages = forParts parts maxPages pages"
        using True by (auto split: list.splits)
      then show ?thesis using IH by simp
    next
      case T: True
      then obtain st en rest where
        n: "?nums = st # en # rest" "\<not> isNaN st" "\<not> isNaN en" by auto
      from bp n have bl: "belowLimit en" by (simp add: boundedPart_def)
      from n(1) obtain p ps where p: "split CHR ''-'' part = p # ps" "st = parseInt (trim p)"
        by (cases "split CHR ''-'' part") auto
      have "p \<in> set (split CHR ''-'' part)" by (simp add: p)
      then have "CHR ''-'' \<notin> set p" by (rule split_no_sep)
      with set_trim[of p] have "CHR ''-'' \<notin> set (trim p)" by auto
      from parseInt_unsigned[OF this] p(2)
      have "st = NaN \<or> st = PosInfinity \<or> (\<exists>s\<ge>0. st = Fin s)" by simp
      from forLoop_bounded_returns[OF this n(2) bl] obtain pages' where
        l: "forLoop st en maxPages pages = Some pages'" by blast
      from IH[of pages'] obtain y where "forParts parts maxPages pages' = Some y" by blast
      then show ?thesis using True n l by simp
    qed
  qed
qed

lemma parsePageRange_returns:
  assumes "boundedRanges rangeStr"
  shows "\<exists>pages. parsePageRange rangeStr maxPages = Some pages \<and>
                 sorted_wrt (<) pages \<and> distinct pages \<and> set pages \<subseteq> {1..maxPages}"
proof -
  have "\<exists>pages. parsePageRange rangeStr maxPages = Some pages"
  proof (cases "trim rangeStr = []")
    case True
    then show ?thesis by (simp add: parsePageRange_def)
  next
    case False
    from forParts_returns[OF assms[unfolded boundedRanges_def], of maxPages "[]"]
    show ?thesis using False by (auto simp: parsePageRange_def)
  qed
  then show ?thesis using parsePageRange_result by blast
qed

lemma parsePageRange_examples:
  "parsePageRange [] 5 = Some [1, 2, 3, 4, 5]"
  "parsePageRange ''2,4-5'' 5 = Some [2, 4, 5]"
  "parsePageRange ''9'' 5 = Some []"
  "parsePageRange ''0-2'' 5 = Some [1, 2]"
  "parsePageRange ''5-2'' 5 = Some []"
  "parsePageRange ''x,3'' 5 = Some [3]"
  by (simp_all add: parsePageRange_def trim_def isWhiteSpace_def parseInt_def isDigit_def
      digitValue_def toNumber_def roundToDouble_def forLoop.simps setAdd_def upto_rec1)


lemma pp2: "parsePageRange ''2'' 3 = Some [2]"
  by (simp add: parsePageRange_def trim_def isWhiteSpace_def parseInt_def isDigit_def
      digitValue_def toNumber_def roundToDouble_def setAdd_def)


lemma downloadPdf_sheet_2:
  "downloadPdfFromSheets w [oneCellSheet ''A'', oneCellSheet ''B'', oneCellSheet ''C'']
      name options (Some ''2'') = Some (writePdf w [oneCellSheet ''B''] name options)"
  by (simp add: downloadPdfFromSheets_def pp2 upt_rec)


lemma handleDownload_is_event:
  "handleDownload w job s = Some s' \<Longrightarrow>
   s' = s \<or> (\<exists>message. s' = fire (EvDownloadFailed (job_id job) message) s)"
  by (auto simp: handleDownload_def split: option.splits)

lemma find_distinct_nth:
  "distinct (map job_id js) \<Longrightarrow> i < length js \<Longrightarrow>
   find (\<lambda>j. job_id j = job_id (js ! i)) js = Some (js ! i)"
proof (induction js arbitrary: i)
  case Nil
  then show ?case by simp
next
  case (Cons a js)
  show ?case
  proof (cases i)
    case 0
    then show ?thesis by simp
  next
    case (Suc k)
    from Cons.prems have k: "k < length js" and d: "distinct (map job_id js)"
      and a: "job_id a \<notin> set (map job_id js)" using Suc by simp_all
    have "job_id (js ! k) \<in> set (map job_id js)" using k by simp
    with a have ne: "job_id a \<noteq> job_id (js ! k)" by metis
    show ?thesis using Cons.IH[OF d k] ne Suc by simp
  qed
qed

lemma retryable_distinct_nth:
  "distinct (map job_id js) \<Longrightarrow> i < length js \<Longrightarrow>
   retryable js (job_id (js ! i)) = (status (js ! i) = Error \<and> job_file (js ! i) \<noteq> None)"
  by (simp add: retryable_def find_distinct_nth)

lemma handleRetrySelected_jobs:
  "jobs (handleRetrySelected s) =
     map (\<lambda>job. if job_id job \<in> selectedJobIds s \<and> retryable (jobs s) (job_id job)
                 then job\<lparr>status := Queued, errorMessage := None, extractedSheets := None\<rparr>
                 else job) (jobs s)"
proof (cases "{jobId \<in> selectedJobIds s. retryable (jobs s) jobId} = {}")
  case True
  then have n: "\<And>x. \<not> (x \<in> selectedJobIds s \<and> retryable (jobs s) x)" by blast
  have "jobs (handleRetrySelected s) = jobs s"
    using True by (simp add: handleRetrySelected_def Let_def)
  also have "\<dots> = map (\<lambda>job. job) (jobs s)" by simp
  finally show ?thesis by (simp add: n)
next
  case False
  then show ?thesis by (simp add: handleRetrySelected_def Let_def)
qed

lemma handleRetrySelected_rest:
  "selectedJobIds (handleRetrySelected s) = {} \<and>
   activeJobsCount (handleRetrySelected s) = activeJobsCount s \<and>
   appMode (handleRetrySelected s) = appMode s \<and>
   inflight (handleRetrySelected s) = inflight s"
  by (simp add: handleRetrySelected_def Let_def)

text \<open>
  Without a selection \<open>handleStyleChange\<close> changes nothing. With a selection all of
  whose cells exist in the sheet, it returns sheets of the same names and shape in which
  every cell keeps its value, every cell of the rectangle in that sheet has the patch
  merged into its style (a property the patch names is taken from the patch, every other
  property is kept: \<open>{bold: true}\<close> on \<open>{color: "#fff"}\<close> gives both), and every
  other cell is unchanged.
\<close>

lemma handleStyleChange_merges:
  "handleStyleChange sheetIndex None style editedData = Inr editedData \<and>
   handleStyleChange sheetIndex (Some selection) style None = Inr None \<and>
   ((\<forall>r c. inRectangle selection r c \<longrightarrow> cellExists prevData sheetIndex r c) \<longrightarrow>
      (\<exists>newSheets.
         handleStyleChange sheetIndex (Some selection) style (Some prevData) = Inr (Some newSheets) \<and>
         shape newSheets = shape prevData \<and>
         (\<forall>k r c. cellExists prevData k r c \<longrightarrow>
            cell_value (sheet_data (newSheets ! k) ! r ! c) = cell_value (sheet_data (prevData ! k) ! r ! c) \<and>
            (if k = sheetIndex \<and> inRectangle selection r c
             then cell_style (sheet_data (newSheets ! k) ! r ! c) =
                    Some (mergeStyle (case cell_style (sheet_data (prevData ! k) ! r ! c) of
                                        None \<Rightarrow> emptyStyle | Some st \<Rightarrow> st) style)
             else sheet_data (newSheets ! k) ! r ! c = sheet_data (prevData ! k) ! r ! c)))) \<and>
   mergeStyle currentStyle style =
     \<lparr>bold = (case patch_bold style of None \<Rightarrow> bold currentStyle | Some v \<Rightarrow> v),
      italic = (case patch_italic style of None \<Rightarrow> italic currentStyle | Some v \<Rightarrow> v),
      underline = (case patch_underline style of None \<Rightarrow> underline currentStyle | Some v \<Rightarrow> v),
      strikethrough = (case patch_strikethrough style of None \<Rightarrow> strikethrough currentStyle | Some v \<Rightarrow> v),
      color = (case patch_color style of None \<Rightarrow> color currentStyle | Some v \<Rightarrow> v),
      align = (case patch_align style of None \<Rightarrow> align currentStyle | Some v \<Rightarrow> v)\<rparr> \<and>
   mergeStyle (emptyStyle\<lparr>color := Some ''#fff''\<rparr>) (noPatch\<lparr>patch_bold := Some (Some True)\<rparr>) =
     emptyStyle\<lparr>bold := Some True, color := Some ''#fff''\<rparr>"
proof -
  have c0: "handleStyleChange sheetIndex None style editedData = Inr editedData"
    by (simp add: handleStyleChange_def)
  have c1: "handleStyleChange sheetIndex (Some selection) style None = Inr None"
    by (simp add: handleStyleChange_def)
  have c2: "(\<forall>r c. inRectangle selection r c \<longrightarrow> cellExists prevData sheetIndex r c) \<longrightarrow>
      (\<exists>newSheets.
         handleStyleChange sheetIndex (Some selection) style (Some prevData) = Inr (Some newSheets) \<and>
         shape newSheets = shape prevData \<and>
         (\<forall>k r c. cellExists prevData k r c \<longrightarrow>
            cell_value (sheet_data (newSheets ! k) ! r ! c) = cell_value (sheet_data (prevData ! k) ! r ! c) \<and>
            (if k = sheetIndex \<and> inRectangle selection r c
             then cell_style (sheet_data (newSheets ! k) ! r ! c) =
                    Some (mergeStyle (case cell_style (sheet_data (prevData ! k) ! r ! c) of
                                        None \<Rightarrow> emptyStyle | Some st \<Rightarrow> st) style)
             else sheet_data (newSheets ! k) ! r ! c = sheet_data (prevData ! k) ! r ! c)))"
  proof
    assume h: "\<forall>r c. inRectangle selection r c \<longrightarrow> cellExists prevData sheetIndex r c"
    then have "\<And>r c. (r, c) \<in> set (rectangle selection) \<Longrightarrow> cellExists prevData sheetIndex r c"
      by (simp add: set_rectangle)
    from styleCells_ok[OF this, where style = style] obtain s' where
      e: "styleCells sheetIndex style (rectangle selection) prevData = Inr s'"
      and sh: "shape s' = shape prevData"
      and p: "\<And>k' r' c'. cellExists prevData k' r' c' \<Longrightarrow>
         sheet_data (s' ! k') ! r' ! c' =
           (if k' = sheetIndex \<and> (r', c') \<in> set (rectangle selection)
            then restyle style (sheet_data (prevData ! k') ! r' ! c')
            else sheet_data (prevData ! k') ! r' ! c')" by blast
    have h1: "handleStyleChange sheetIndex (Some selection) style (Some prevData) = Inr (Some s')"
      by (simp add: handleStyleChange_def e)
    have h2: "\<forall>k r c. cellExists prevData k r c \<longrightarrow>
            cell_value (sheet_data (s' ! k) ! r ! c) = cell_value (sheet_data (prevData ! k) ! r ! c) \<and>
            (if k = sheetIndex \<and> inRectangle selection r c
             then cell_style (sheet_data (s' ! k) ! r ! c) =
                    Some (mergeStyle (case cell_style (sheet_data (prevData ! k) ! r ! c) of
                                        None \<Rightarrow> emptyStyle | Some st \<Rightarrow> st) style)
             else sheet_data (s' ! k) ! r ! c = sheet_data (prevData ! k) ! r ! c)"
    proof (intro allI impI)
      fix k r c assume a: "cellExists prevData k r c"
      show "cell_value (sheet_data (s' ! k) ! r ! c) = cell_value (sheet_data (prevData ! k) ! r ! c) \<and>
            (if k = sheetIndex \<and> inRectangle selection r c
             then cell_style (sheet_data (s' ! k) ! r ! c) =
                    Some (mergeStyle (case cell_style (sheet_data (prevData ! k) ! r ! c) of
                                        None \<Rightarrow> emptyStyle | Some st \<Rightarrow> st) style)
             else sheet_data (s' ! k) ! r ! c = sheet_data (prevData ! k) ! r ! c)"
        unfolding p[OF a] set_rectangle by (simp add: restyle_value restyle_style)
    qed
    show "\<exists>newSheets.
         handleStyleChange sheetIndex (Some selection) style (Some prevData) = Inr (Some newSheets) \<and>
         shape newSheets = shape prevData \<and>
         (\<forall>k r c. cellExists prevData k r c \<longrightarrow>
            cell_value (sheet_data (newSheets ! k) ! r ! c) = cell_value (sheet_data (prevData ! k) ! r ! c) \<and>
            (if k = sheetIndex \<and> inRectangle selection r c
             then cell_style (sheet_data (newSheets ! k) ! r ! c) =
                    Some (mergeStyle (case cell_style (sheet_data (prevData ! k) ! r ! c) of
                                        None \<Rightarrow> emptyStyle | Some st \<Rightarrow> st) style)
             else sheet_data (newSheets ! k) ! r ! c = sheet_data (prevData ! k) ! r ! c))"
      using h1 sh h2 by blast
  qed
  have c3: "mergeStyle currentStyle style =
     \<lparr>bold = (case patch_bold style of None \<Rightarrow> bold currentStyle | Some v \<Rightarrow> v),
      italic = (case patch_italic style of None \<Rightarrow> italic currentStyle | Some v \<Rightarrow> v),
      underline = (case patch_underline style of None \<Rightarrow> underline currentStyle | Some v \<Rightarrow> v),
      strikethrough = (case patch_strikethrough style of None \<Rightarrow> strikethrough currentStyle | Some v \<Rightarrow> v),
      color = (case patch_color style of None \<Rightarrow> color currentStyle | Some v \<Rightarrow> v),
      align = (case patch_align style of None \<Rightarrow> align currentStyle | Some v \<Rightarrow> v)\<rparr>"
    by (simp add: mergeStyle_def spread_def)
  have c4: "mergeStyle (emptyStyle\<lparr>color := Some ''#fff''\<rparr>) (noPatch\<lparr>patch_bold := Some (Some True)\<rparr>) =
     emptyStyle\<lparr>bold := Some True, color := Some ''#fff''\<rparr>"
    by (simp add: mergeStyle_def spread_def emptyStyle_def noPatch_def)
  show ?thesis
    by (intro conjI) (fact c0, fact c1, fact c2, fact c3, fact c4)
qed

lemma handleStyleChange_merges_witness:
  "handleStyleChange 0 (Some topRow) boldPatch (Some raggedSheets) =
     Inr (Some [\<lparr>sheetName = ''Sheet1'',
                  sheet_data = [[\<lparr>cell_value = ''a'', cell_style = Some (emptyStyle\<lparr>bold := Some True\<rparr>)\<rparr>,
                                 \<lparr>cell_value = ''b'', cell_style = Some (emptyStyle\<lparr>bold := Some True\<rparr>)\<rparr>],
                                [plainCell ''c'']]\<rparr>]) \<and>
   cellExists raggedSheets 0 0 1 \<and> inRectangle topRow 0 1"
  using handleStyleChange_merges [of 0 boldPatch "Some raggedSheets" topRow raggedSheets emptyStyle]
    topRow_exists
  by (simp add: handleStyleChange_def topRow_def rectangle_def raggedSheets_def styleCell_def
      Let_def restyle_def mergeStyle_def spread_def boldPatch_def noPatch_def plainCell_def
      emptyStyle_def cellExists_def inRectangle_def)

lemma sameFiles_jobs:
  "jobs sameFilesQueued = map (newJob PdfToExcel) sameFiles \<and> activeJobsCount sameFilesQueued = 0 \<and>
   inflight sameFilesQueued = []"
  by (simp add: sameFilesQueued_def handleFileSelect_def initialState_def)

section \<open>The claims\<close>

text \<open>
  C3: loading a saved queue turns every job saved as \<open>processing\<close> or \<open>queued\<close> into
  an \<open>error\<close> job with the fixed message and no file; every other job keeps its status
  (and every other field) and loses its file; the retry button of each restored job is
  disabled, so a click on it changes nothing.
\<close>

theorem restore_interrupts_unfinished_jobs:
  "length (restoreQueue (Snapshot savedJobs)) = length savedJobs \<and>
   (\<forall>i < length savedJobs.
      let saved = savedJobs ! i; job = restoreQueue (Snapshot savedJobs) ! i in
        job_file job = None \<and> retryButtonDisabled job \<and> clickRetry job s = s \<and>
        (if status saved = Processing \<or> status saved = Queued
         then job = saved\<lparr>status := Error,
                errorMessage := Some ''Processing was interrupted. Please re-upload to retry.'',
                job_file := None\<rparr>
         else job = saved\<lparr>job_file := None\<rparr> \<and> status job = status saved))"
  by (simp add: Let_def restoreJob_def retryButtonDisabled_def clickRetry_def
      interrupted_message_def)

theorem restore_interrupts_unfinished_jobs_witness:
  "status (newJob PdfToExcel exampleFile) = Queued \<and>
   restoreQueue (Snapshot [newJob PdfToExcel exampleFile]) ! 0 =
     (newJob PdfToExcel exampleFile)\<lparr>status := Error,
        errorMessage := Some ''Processing was interrupted. Please re-upload to retry.'',
        job_file := None\<rparr> \<and>
   clickRetry (restoreQueue (Snapshot [newJob PdfToExcel exampleFile]) ! 0)
     (initialState (Snapshot [newJob PdfToExcel exampleFile])) =
     initialState (Snapshot [newJob PdfToExcel exampleFile])"
  using restore_interrupts_unfinished_jobs
    [of "[newJob PdfToExcel exampleFile]" "initialState (Snapshot [newJob PdfToExcel exampleFile])"]
  by (simp add: Let_def newJob_def restoreJob_def retryButtonDisabled_def clickRetry_def
      interrupted_message_def)

text \<open>
  C10: adding files keeps the queued and the processing jobs in their order, appends the
  new jobs after them, and empties the selection: no job in status \<open>success\<close> or
  \<open>error\<close> is left in the queue.
\<close>
theorem handleFileSelect_drops_finished_jobs:
  "jobs (handleFileSelect files s) =
     filter (\<lambda>job. status job = Queued \<or> status job = Processing) (jobs s) @
     map (newJob (appMode s)) files \<and>
   selectedJobIds (handleFileSelect files s) = {} \<and>
   (\<forall>job \<in> set (jobs (handleFileSelect files s)). status job \<noteq> Success \<and> status job \<noteq> Error)"
  by (auto simp: handleFileSelect_def Let_def isActive_def[abs_def] newJob_def)

theorem handleFileSelect_drops_finished_jobs_witness:
  "map status (jobs finishedState) = [Error] \<and>
   selectedJobIds finishedState = {''x''} \<and>
   jobs (handleFileSelect [otherFile] finishedState) = [newJob PdfToExcel otherFile] \<and>
   selectedJobIds (handleFileSelect [otherFile] finishedState) = {}"
  using handleFileSelect_drops_finished_jobs [of "[otherFile]" finishedState]
  by (simp add: finishedState_def downloadFailed_def updateJob_def handleToggleSelection_def
      handleFileSelect_def initialState_def isActive_def newJob_def)

text \<open>
  C4: a run of \<open>processJob\<close> on a job without a file is the single update that marks
  the job (every job of that id) as failed with the fixed message: nothing is called, the
  counter is not touched, and nothing is left in flight.
\<close>
theorem processJob_without_file:
  "job_file job = None \<Longrightarrow>
   processJob env job = [SetFileMissing (job_id job)] \<and>
   (\<forall>c. Call c \<notin> set (processJob env job)) \<and>
   IncActive \<notin> set (processJob env job) \<and>
   jobs (runActions (processJob env job) s) =
     map (\<lambda>j. if job_id j = job_id job
               then j\<lparr>status := Error,
                      errorMessage := Some ''File not available. Please re-upload to process.''\<rparr>
               else j) (jobs s) \<and>
   activeJobsCount (runActions (processJob env job) s) = activeJobsCount s \<and>
   dispatch env job s = runActions (processJob env job) s \<and>
   inflight (dispatch env job s) = inflight s"
  by (simp add: processJob_missing runActions_def dispatch_def updateJob_def)

theorem processJob_without_file_witness:
  "job_file (restoreJob (newJob PdfToExcel exampleFile)) = None \<and>
   processJob unreadableEnv (restoreJob (newJob PdfToExcel exampleFile)) =
     [SetFileMissing (job_id (newJob PdfToExcel exampleFile))] \<and>
   map status (jobs (runActions (processJob unreadableEnv (restoreJob (newJob PdfToExcel exampleFile)))
      (handleFileSelect [exampleFile] (initialState NoItem)))) = [Error] \<and>
   activeJobsCount (runActions (processJob unreadableEnv (restoreJob (newJob PdfToExcel exampleFile)))
      (handleFileSelect [exampleFile] (initialState NoItem))) = 0"
  using processJob_without_file [of "restoreJob (newJob PdfToExcel exampleFile)" unreadableEnv
      "handleFileSelect [exampleFile] (initialState NoItem)"]
  by (simp add: restoreJob_def newJob_def handleFileSelect_def initialState_def isActive_def
      processJob_def runActions_def updateJob_def)

text \<open>
  C2: a run of \<open>processJob\<close> on a job with a file increments the counter first, before
  any call, and decrements it last, whatever the calls return or throw, and touches it
  nowhere in between; so a whole run leaves the counter as it was. In every reachable
  state the counter is the number of runs in flight, and it is 0 when none is.
\<close>
theorem processJob_counter_paired:
  "(job_file job \<noteq> None \<longrightarrow>
      (\<exists>body. processJob env job = IncActive # body @ [DecActive] \<and>
              IncActive \<notin> set body \<and> DecActive \<notin> set body) \<and>
      activeJobsCount (runActions (processJob env job) s) = activeJobsCount s) \<and>
   (reachable t \<longrightarrow>
      activeJobsCount t = int (length (inflight t)) \<and>
      (inflight t = [] \<longrightarrow> activeJobsCount t = 0))"
proof -
  have "job_file job \<noteq> None \<longrightarrow>
      (\<exists>body. processJob env job = IncActive # body @ [DecActive] \<and>
              IncActive \<notin> set body \<and> DecActive \<notin> set body)"
    using processJob_shape[of job _ env] by auto
  moreover have "reachable t \<longrightarrow> activeJobsCount t = int (length (inflight t))"
    using reachable_counterInv[of t] by (simp add: counterInv_def)
  ultimately show ?thesis
    by (simp add: runActions_processJob_counter)
qed

theorem processJob_counter_paired_witness:
  "job_file (newJob PdfToExcel exampleFile) \<noteq> None \<and>
   processJob unreadableEnv (newJob PdfToExcel exampleFile) =
     [IncActive, Call (CallConvertPdfToImages exampleFile []),
      SetError (job_id (newJob PdfToExcel exampleFile)) ''Failed to read the PDF file.'', DecActive] \<and>
   reachable exampleFinal \<and> inflight exampleFinal = [] \<and> activeJobsCount exampleFinal = 0"
  using processJob_counter_paired [of "newJob PdfToExcel exampleFile" unreadableEnv exampleFinal exampleFinal]
    reachable_exampleFinal
  by (simp add: newJob_def processJob_def tryBlock_def unreadableEnv_def catchBlock_def exampleFinal_def)

text \<open>
  C8: retry sets every job of the given id back to \<open>queued\<close> with no error message and
  no sheets. The button runs it only for a job in status \<open>error\<close> that holds a file; on
  a job without a file it does nothing. In every reachable state a job without a file is
  not queued, and neither its retry button, nor the retry button of another job, nor the
  batch retry changes it. No step of a pipeline and no run of the scheduler puts a job
  back to \<open>queued\<close>: only the two retry handlers and the creation of a job do.

  The batch retry empties the selection and leaves the counter, the mode and the running
  pipelines alone. It sets back to \<open>queued\<close>, with no error message and no sheets, every
  job whose id is selected and for which the first job of that id is in status \<open>error\<close>
  and holds a file, and it changes no other job. When the ids of the queue are pairwise
  distinct that is: exactly the selected jobs in status \<open>error\<close> that hold a file.
\<close>

theorem retry_requeues_only_jobs_with_file:
  "jobs (handleRetry jobId s) =
     map (\<lambda>job. if job_id job = jobId
                 then job\<lparr>status := Queued, errorMessage := None, extractedSheets := None\<rparr>
                 else job) (jobs s) \<and>
   (\<forall>job \<in> set (jobs (handleRetry jobId s)).
      job_id job = jobId \<longrightarrow>
        status job = Queued \<and> errorMessage job = None \<and> extractedSheets job = None) \<and>
   (status job = Error \<and> job_file job \<noteq> None \<longrightarrow> clickRetry job s = handleRetry (job_id job) s) \<and>
   (job_file job = None \<longrightarrow> clickRetry job s = s) \<and>
   (reachable t \<longrightarrow>
      (\<forall>i < length (jobs t). job_file (jobs t ! i) = None \<longrightarrow>
         status (jobs t ! i) \<noteq> Queued \<and>
         jobs (handleRetrySelected t) ! i = jobs t ! i \<and>
         (\<forall>j \<in> set (jobs t). jobs (clickRetry j t) ! i = jobs t ! i))) \<and>
   length (jobs (applyAction a s)) = length (jobs s) \<and>
   length (jobs (scheduler env s)) = length (jobs s) \<and>
   (\<forall>i < length (jobs s).
      (status (jobs (applyAction a s) ! i) = Queued \<longrightarrow> status (jobs s ! i) = Queued) \<and>
      (status (jobs (scheduler env s) ! i) = Queued \<longrightarrow> status (jobs s ! i) = Queued)) \<and>
   selectedJobIds (handleRetrySelected s) = {} \<and>
   activeJobsCount (handleRetrySelected s) = activeJobsCount s \<and>
   appMode (handleRetrySelected s) = appMode s \<and>
   inflight (handleRetrySelected s) = inflight s \<and>
   jobs (handleRetrySelected s) =
     map (\<lambda>job. if job_id job \<in> selectedJobIds s \<and> retryable (jobs s) (job_id job)
                 then job\<lparr>status := Queued, errorMessage := None, extractedSheets := None\<rparr>
                 else job) (jobs s) \<and>
   (distinct (map job_id (jobs s)) \<longrightarrow>
      (\<forall>i < length (jobs s).
         jobs (handleRetrySelected s) ! i =
           (if job_id (jobs s ! i) \<in> selectedJobIds s \<and>
               status (jobs s ! i) = Error \<and> job_file (jobs s ! i) \<noteq> None
            then (jobs s ! i)\<lparr>status := Queued, errorMessage := None, extractedSheets := None\<rparr>
            else jobs s ! i)))"
proof -
  have c0: "jobs (handleRetry jobId s) =
     map (\<lambda>job. if job_id job = jobId
                 then job\<lparr>status := Queued, errorMessage := None, extractedSheets := None\<rparr>
                 else job) (jobs s)"
    by (simp add: handleRetry_def)
  have c1: "\<forall>job \<in> set (jobs (handleRetry jobId s)).
      job_id job = jobId \<longrightarrow>
        status job = Queued \<and> errorMessage job = None \<and> extractedSheets job = None"
  proof (intro ballI impI)
    fix job assume a: "job \<in> set (jobs (handleRetry jobId s))" and b: "job_id job = jobId"
    from in_set_map_if[OF a[unfolded c0]] b
    show "status job = Queued \<and> errorMessage job = None \<and> extractedSheets job = None"
      by (elim disjE bexE conjE) simp_all
  qed
  have c2: "status job = Error \<and> job_file job \<noteq> None \<longrightarrow> clickRetry job s = handleRetry (job_id job) s"
    by (simp add: clickRetry_def retryButtonShown_def retryButtonDisabled_def)
  have c3: "job_file job = None \<longrightarrow> clickRetry job s = s"
    by (simp add: clickRetry_no_file)
  have c4: "reachable t \<longrightarrow>
      (\<forall>i < length (jobs t). job_file (jobs t ! i) = None \<longrightarrow>
         status (jobs t ! i) \<noteq> Queued \<and>
         jobs (handleRetrySelected t) ! i = jobs t ! i \<and>
         (\<forall>j \<in> set (jobs t). jobs (clickRetry j t) ! i = jobs t ! i))"
  proof (intro impI allI)
    fix i assume r: "reachable t" and i: "i < length (jobs t)" and f: "job_file (jobs t ! i) = None"
    from reachable_no_file_not_active[OF r i f]
    have all: "\<forall>j \<in> set (jobs t). job_file j = None \<and> \<not> isActive j" .
    have mem: "jobs t ! i \<in> set (jobs t)" using i by simp
    have a: "status (jobs t ! i) \<noteq> Queued" using all mem by (auto simp: isActive_def)
    have b: "jobs (handleRetrySelected t) = jobs t"
      using all by (simp add: handleRetrySelected_no_files)
    have c: "\<forall>j \<in> set (jobs t). clickRetry j t = t"
      using all by (simp add: clickRetry_no_file)
    show "status (jobs t ! i) \<noteq> Queued \<and>
         jobs (handleRetrySelected t) ! i = jobs t ! i \<and>
         (\<forall>j \<in> set (jobs t). jobs (clickRetry j t) ! i = jobs t ! i)"
      using a b c by simp
  qed
  have c5: "length (jobs (applyAction a s)) = length (jobs s)" by simp
  have c6: "length (jobs (scheduler env s)) = length (jobs s)"
    using scheduler_never_requeues[of env s 0] by simp
  have c7: "\<forall>i < length (jobs s).
      (status (jobs (applyAction a s) ! i) = Queued \<longrightarrow> status (jobs s ! i) = Queued) \<and>
      (status (jobs (scheduler env s) ! i) = Queued \<longrightarrow> status (jobs s ! i) = Queued)"
  proof (intro allI impI conjI)
    fix i assume "i < length (jobs s)" "status (jobs (applyAction a s) ! i) = Queued"
    then show "status (jobs s ! i) = Queued" by (rule applyAction_never_requeues)
  next
    fix i assume "i < length (jobs s)" "status (jobs (scheduler env s) ! i) = Queued"
    then show "status (jobs s ! i) = Queued" using scheduler_never_requeues[of env s i] by simp
  qed
  have c8: "selectedJobIds (handleRetrySelected s) = {}"
    and c9: "activeJobsCount (handleRetrySelected s) = activeJobsCount s"
    and c10: "appMode (handleRetrySelected s) = appMode s"
    and c11: "inflight (handleRetrySelected s) = inflight s"
    using handleRetrySelected_rest[of s] by simp_all
  have c12: "jobs (handleRetrySelected s) =
     map (\<lambda>job. if job_id job \<in> selectedJobIds s \<and> retryable (jobs s) (job_id job)
                 then job\<lparr>status := Queued, errorMessage := None, extractedSheets := None\<rparr>
                 else job) (jobs s)"
    by (rule handleRetrySelected_jobs)
  have c13: "distinct (map job_id (jobs s)) \<longrightarrow>
      (\<forall>i < length (jobs s).
         jobs (handleRetrySelected s) ! i =
           (if job_id (jobs s ! i) \<in> selectedJobIds s \<and>
               status (jobs s ! i) = Error \<and> job_file (jobs s ! i) \<noteq> None
            then (jobs s ! i)\<lparr>status := Queued, errorMessage := None, extractedSheets := None\<rparr>
            else jobs s ! i))"
  proof (intro impI allI)
    fix i assume d: "distinct (map job_id (jobs s))" and i: "i < length (jobs s)"
    show "jobs (handleRetrySelected s) ! i =
           (if job_id (jobs s ! i) \<in> selectedJobIds s \<and>
               status (jobs s ! i) = Error \<and> job_file (jobs s ! i) \<noteq> None
            then (jobs s ! i)\<lparr>status := Queued, errorMessage := None, extractedSheets := None\<rparr>
            else jobs s ! i)"
      unfolding c12 using i by (simp add: retryable_distinct_nth[OF d i])
  qed
  show ?thesis
    by (intro conjI) (fact c0, fact c1, fact c2, fact c3, fact c4, fact c5, fact c6, fact c7,
      fact c8, fact c9, fact c10, fact c11, fact c12, fact c13)
qed

theorem retry_requeues_only_jobs_with_file_witness:
  "reachable restoredState \<and>
   selectedJobIds restoredState = {job_id (newJob PdfToExcel exampleFile)} \<and>
   job_file (jobs restoredState ! 0) = None \<and>
   status (jobs restoredState ! 0) = Error \<and>
   jobs (handleRetrySelected restoredState) ! 0 = jobs restoredState ! 0 \<and>
   jobs (clickRetry (jobs restoredState ! 0) restoredState) ! 0 = jobs restoredState ! 0 \<and>
   map status (jobs exampleFinal) = [Error] \<and>
   map status (jobs (clickRetry (jobs exampleFinal ! 0) exampleFinal)) = [Queued] \<and>
   distinct (map job_id (jobs selectedFinal)) \<and>
   selectedJobIds selectedFinal = {job_id (newJob PdfToExcel exampleFile)} \<and>
   map status (jobs selectedFinal) = [Error] \<and>
   map errorMessage (jobs selectedFinal) = [Some ''Failed to read the PDF file.''] \<and>
   jobs (handleRetrySelected selectedFinal) =
     [(jobs selectedFinal ! 0)\<lparr>status := Queued, errorMessage := None, extractedSheets := None\<rparr>] \<and>
   selectedJobIds (handleRetrySelected selectedFinal) = {}"
proof -
  have r: "reachable restoredState" by (rule reachable_restoredState)
  have j: "jobs restoredState = [restoreJob (newJob PdfToExcel exampleFile)]"
    by (simp add: restoredState_def handleToggleSelection_def initialState_def)
  have l: "0 < length (jobs restoredState)" by (simp add: j)
  have m: "jobs restoredState ! 0 \<in> set (jobs restoredState)" by (simp add: j)
  have f: "job_file (jobs restoredState ! 0) = None" by (simp add: j)
  have e: "status (jobs restoredState ! 0) = Error" by (simp add: j restoreJob_def newJob_def)
  have sel: "selectedJobIds restoredState = {job_id (newJob PdfToExcel exampleFile)}"
    by (simp add: restoredState_def handleToggleSelection_def initialState_def)
  have ex: "status (jobs exampleFinal ! 0) = Error \<and> job_file (jobs exampleFinal ! 0) \<noteq> None"
    by (simp add: exampleFinal_def newJob_def)
  have exs: "map status (jobs exampleFinal) = [Error]"
    by (simp add: exampleFinal_def newJob_def)
  note T = retry_requeues_only_jobs_with_file
     [of "job_id (jobs exampleFinal ! 0)" exampleFinal "jobs exampleFinal ! 0" restoredState
         IncActive unreadableEnv]
  from T have T0: "jobs (handleRetry (job_id (jobs exampleFinal ! 0)) exampleFinal) =
     map (\<lambda>job. if job_id job = job_id (jobs exampleFinal ! 0)
                 then job\<lparr>status := Queued, errorMessage := None, extractedSheets := None\<rparr>
                 else job) (jobs exampleFinal)" by (rule conjunct1)
  from T have T2: "clickRetry (jobs exampleFinal ! 0) exampleFinal =
                   handleRetry (job_id (jobs exampleFinal ! 0)) exampleFinal"
    using ex by blast
  from T r have T4: "\<forall>i < length (jobs restoredState). job_file (jobs restoredState ! i) = None \<longrightarrow>
         status (jobs restoredState ! i) \<noteq> Queued \<and>
         jobs (handleRetrySelected restoredState) ! i = jobs restoredState ! i \<and>
         (\<forall>j \<in> set (jobs restoredState). jobs (clickRetry j restoredState) ! i = jobs restoredState ! i)"
    by blast
  from T4 l f m have a: "jobs (handleRetrySelected restoredState) ! 0 = jobs restoredState ! 0"
    and b: "jobs (clickRetry (jobs restoredState ! 0) restoredState) ! 0 = jobs restoredState ! 0"
    by blast+
  have q: "map status (jobs (clickRetry (jobs exampleFinal ! 0) exampleFinal)) = [Queued]"
    unfolding T2 T0 by (simp add: exampleFinal_def)
  have sj: "jobs selectedFinal = jobs exampleFinal"
    and ss: "selectedJobIds selectedFinal = {job_id (newJob PdfToExcel exampleFile)}"
    by (simp_all add: selectedFinal_def handleToggleSelection_def exampleFinal_def)
  have sd: "distinct (map job_id (jobs selectedFinal))"
    and sl: "length (jobs selectedFinal) = 1"
    and sst: "map status (jobs selectedFinal) = [Error]"
    and sm: "map errorMessage (jobs selectedFinal) = [Some ''Failed to read the PDF file.'']"
    and sx: "job_id (jobs selectedFinal ! 0) \<in> selectedJobIds selectedFinal \<and>
             status (jobs selectedFinal ! 0) = Error \<and> job_file (jobs selectedFinal ! 0) \<noteq> None"
    unfolding sj ss by (simp_all add: exampleFinal_def newJob_def)
  note U = retry_requeues_only_jobs_with_file
     [of "job_id (jobs exampleFinal ! 0)" selectedFinal "jobs exampleFinal ! 0" restoredState
         IncActive unreadableEnv]
  from U have U8: "selectedJobIds (handleRetrySelected selectedFinal) = {}" by blast
  from U have U12: "length (jobs (handleRetrySelected selectedFinal)) = length (jobs selectedFinal)"
    by simp
  from U sd have U13: "\<forall>i < length (jobs selectedFinal).
         jobs (handleRetrySelected selectedFinal) ! i =
           (if job_id (jobs selectedFinal ! i) \<in> selectedJobIds selectedFinal \<and>
               status (jobs selectedFinal ! i) = Error \<and> job_file (jobs selectedFinal ! i) \<noteq> None
            then (jobs selectedFinal ! i)\<lparr>status := Queued, errorMessage := None, extractedSheets := None\<rparr>
            else jobs selectedFinal ! i)" by blast
  from U13 sl sx have u0: "jobs (handleRetrySelected selectedFinal) ! 0 =
     (jobs selectedFinal ! 0)\<lparr>status := Queued, errorMessage := None, extractedSheets := None\<rparr>"
    by simp
  have u: "jobs (handleRetrySelected selectedFinal) =
     [(jobs selectedFinal ! 0)\<lparr>status := Queued, errorMessage := None, extractedSheets := None\<rparr>]"
  proof (rule nth_equalityI)
    show "length (jobs (handleRetrySelected selectedFinal)) =
          length [(jobs selectedFinal ! 0)\<lparr>status := Queued, errorMessage := None, extractedSheets := None\<rparr>]"
      using U12 sl by simp
  next
    fix i assume "i < length (jobs (handleRetrySelected selectedFinal))"
    then have "i = 0" using U12 sl by simp
    then show "jobs (handleRetrySelected selectedFinal) ! i =
       [(jobs selectedFinal ! 0)\<lparr>status := Queued, errorMessage := None, extractedSheets := None\<rparr>] ! i"
      using u0 by simp
  qed
  show ?thesis
    by (intro conjI) (fact r, fact sel, fact f, fact e, fact a, fact b, fact exs, fact q,
      fact sd, fact ss, fact sst, fact sm, fact u, fact U8)
qed




text \<open>
  C6 fails on the code for a rectangle that covers a cell the sheet does not have, and the
  table produces such a rectangle. The sheet converted from the rows \<open>[a, b]\<close> and
  \<open>[c]\<close> has the cells \<open>(0,1)\<close> and \<open>(1,0)\<close> and no cell \<open>(1,1)\<close>. A click
  on \<open>(0,1)\<close> followed by a shift-click on \<open>(1,0)\<close> selects the rectangle from
  \<open>(0,0)\<close> to \<open>(1,1)\<close>; the Bold button then passes \<open>{bold: true}\<close> and that
  rectangle to \<open>handleStyleChange\<close>, which throws a \<open>TypeError\<close> inside the update and
  styles no cell.
\<close>

theorem handleStyleChange_throws_on_ragged_sheet:
  "raggedSheets =
     convertRawSheetsToRich [\<lparr>raw_sheetName = ''Sheet1'', raw_data = [[''a'', ''b''], [''c'']]\<rparr>] \<and>
   cellExists raggedSheets 0 0 1 \<and> cellExists raggedSheets 0 1 0 \<and>
   \<not> cellExists raggedSheets 0 1 1 \<and>
   clickCell raggedSheets True 1 0 (clickCell raggedSheets False 0 1 initialTable) =
     \<lparr>tbl_activeSheetIndex = 0,
      tbl_activeCell = Some \<lparr>ac_sheetIndex = 0, ac_rowIndex = 0, ac_cellIndex = 1\<rparr>,
      tbl_selection = Some bothRows\<rparr> \<and>
   boldButton (activeCellData raggedSheets
      (clickCell raggedSheets True 1 0 (clickCell raggedSheets False 0 1 initialTable))) = boldPatch \<and>
   clickBold raggedSheets
      (clickCell raggedSheets True 1 0 (clickCell raggedSheets False 0 1 initialTable))
      (Some raggedSheets) = Inl TypeError \<and>
   handleStyleChange 0 (Some bothRows) boldPatch (Some raggedSheets) = Inl TypeError"
proof -
  let ?t = "clickCell raggedSheets True 1 0 (clickCell raggedSheets False 0 1 initialTable)"
  have c0: "raggedSheets =
     convertRawSheetsToRich [\<lparr>raw_sheetName = ''Sheet1'', raw_data = [[''a'', ''b''], [''c'']]\<rparr>]"
    by (simp add: raggedSheets_def convertRawSheetsToRich_def plainCell_def)
  have c1: "cellExists raggedSheets 0 0 1" by (simp add: cellExists_def raggedSheets_def)
  have c2: "cellExists raggedSheets 0 1 0" by (simp add: cellExists_def raggedSheets_def)
  have c3: "\<not> cellExists raggedSheets 0 1 1" by (simp add: cellExists_def raggedSheets_def)
  have first: "clickCell raggedSheets False 0 1 initialTable =
     \<lparr>tbl_activeSheetIndex = 0,
      tbl_activeCell = Some \<lparr>ac_sheetIndex = 0, ac_rowIndex = 0, ac_cellIndex = 1\<rparr>,
      tbl_selection = Some \<lparr>sel_start = \<lparr>row = 0, col = 1\<rparr>, sel_end = \<lparr>row = 0, col = 1\<rparr>\<rparr>\<rparr>"
    using c1 by (simp add: clickCell_def handleCellClick_def initialTable_def)
  have c4: "?t = \<lparr>tbl_activeSheetIndex = 0,
      tbl_activeCell = Some \<lparr>ac_sheetIndex = 0, ac_rowIndex = 0, ac_cellIndex = 1\<rparr>,
      tbl_selection = Some bothRows\<rparr>"
    unfolding first using c2 by (simp add: clickCell_def handleCellClick_def bothRows_def)
  have c5: "boldButton (activeCellData raggedSheets ?t) = boldPatch"
    unfolding c4 using c1
    by (simp add: activeCellData_def boldButton_def boldPatch_def raggedSheets_def plainCell_def
        emptyStyle_def)
  have c7: "handleStyleChange 0 (Some bothRows) boldPatch (Some raggedSheets) = Inl TypeError"
    by (simp add: handleStyleChange_def bothRows_def rectangle_def raggedSheets_def styleCell_def
        Let_def)
  have c6: "clickBold raggedSheets ?t (Some raggedSheets) = Inl TypeError"
    unfolding clickBold_def c5 unfolding c4 using c7 by simp
  show ?thesis
    by (intro conjI) (fact c0, fact c1, fact c2, fact c3, fact c4, fact c5, fact c6, fact c7)
qed

text \<open>
  C5 fails on the code for a range whose end is \<open>2^53\<close> or more: the loop variable
  stops growing at \<open>2^53\<close>, the loop condition \<open>i <= end\<close> stays true, and
  \<open>parsePageRange\<close> never returns. For every bounded range expression it returns, and
  whatever it returns is strictly ascending and within \<open>[1, maxPages]\<close>
  (\<open>parsePageRange_returns\<close>, \<open>parsePageRange_result\<close>, \<open>parsePageRange_examples\<close>).
\<close>

theorem parsePageRange_never_returns:
  "parsePageRange ''1-9007199254740992'' 5 = None"
proof -
  have "forLoop (Fin 1) (Fin (2 ^ 53)) 5 [] = None" by (rule forLoop_never_returns) simp_all
  then show ?thesis
    by (simp add: parsePageRange_def trim_def isWhiteSpace_def parseInt_1 parseInt_2_53)
qed




text \<open>
  C1 fails on the code when jobs share an id. The id of a job is made of the name, the
  modification time and the size of its file, so four files that agree in the three give
  four queued jobs of one id. The scheduler takes the first three of them to start, but it
  marks as \<open>processing\<close> every job whose id is the id of one of the three: all four
  jobs are \<open>processing\<close>, one more than \<open>MAX_CONCURRENT_JOBS\<close>, while three
  pipelines run.
\<close>

theorem scheduler_exceeds_ceiling_on_equal_ids:
  "distinct sameFiles \<and> length sameFiles = 4 \<and>
   map job_id (jobs sameFilesQueued) = replicate 4 ''a.pdf-1-2'' \<and>
   map status (jobs sameFilesQueued) = replicate 4 Queued \<and>
   activeJobsCount sameFilesQueued = 0 \<and>
   length (jobsToStart sameFilesQueued) = 3 \<and>
   reachable (scheduler unreadableEnv sameFilesQueued) \<and>
   map status (jobs (scheduler unreadableEnv sameFilesQueued)) = replicate 4 Processing \<and>
   activeJobsCount (scheduler unreadableEnv sameFilesQueued) = 3 \<and>
   length (inflight (scheduler unreadableEnv sameFilesQueued)) = 3 \<and>
   processingCount (scheduler unreadableEnv sameFilesQueued) = 4 \<and>
   int (processingCount (scheduler unreadableEnv sameFilesQueued)) > MAX_CONCURRENT_JOBS"
proof -
  note j = sameFiles_jobs
  have c0: "distinct sameFiles" by (simp add: sameFiles_def exampleFile_def)
  have c1: "length sameFiles = 4" by (simp add: sameFiles_def)
  have c2: "map job_id (jobs sameFilesQueued) = replicate 4 ''a.pdf-1-2''"
    by (simp add: j sameFiles_def newJob_def exampleFile_def decimal.simps numeral_eq_Suc)
  have c3: "map status (jobs sameFilesQueued) = replicate 4 Queued"
    by (simp add: j sameFiles_def newJob_def numeral_eq_Suc)
  have c4: "activeJobsCount sameFilesQueued = 0" by (simp add: j)
  have c5: "length (jobsToStart sameFilesQueued) = 3"
    by (simp add: jobsToStart_def j sameFiles_def newJob_def MAX_CONCURRENT_JOBS_def)
  have r0: "reachable sameFilesQueued"
    unfolding sameFilesQueued_def
    using reachable.step[OF reachable.start, of "EvFileSelect sameFiles" NoItem]
    by (simp add: initialState_def sameFiles_def)
  have c6: "reachable (scheduler unreadableEnv sameFilesQueued)"
    using reachable.step[OF r0, of "EvScheduler unreadableEnv"] by simp
  have st: "jobs (scheduler unreadableEnv sameFilesQueued) =
      map (\<lambda>j. j\<lparr>status := Processing\<rparr>) (jobs sameFilesQueued) \<and>
     activeJobsCount (scheduler unreadableEnv sameFilesQueued) = 3 \<and>
     length (inflight (scheduler unreadableEnv sameFilesQueued)) = 3"
    by (simp add: scheduler_def jobsToStart_def j sameFiles_def MAX_CONCURRENT_JOBS_def
        markProcessing_def dispatch_def processJob_def tryBlock_def unreadableEnv_def
        catchBlock_def newJob_def Let_def exampleFile_def)
  have c7: "map status (jobs (scheduler unreadableEnv sameFilesQueued)) = replicate 4 Processing"
    by (simp add: st j sameFiles_def numeral_eq_Suc)
  have c8: "activeJobsCount (scheduler unreadableEnv sameFilesQueued) = 3" by (simp add: st)
  have c9: "length (inflight (scheduler unreadableEnv sameFilesQueued)) = 3" by (simp add: st)
  have c10: "processingCount (scheduler unreadableEnv sameFilesQueued) = 4"
    by (simp add: processingCount_def st j sameFiles_def)
  have c11: "int (processingCount (scheduler unreadableEnv sameFilesQueued)) > MAX_CONCURRENT_JOBS"
    by (simp add: c10 MAX_CONCURRENT_JOBS_def)
  show ?thesis
    by (intro conjI) (fact c0, fact c1, fact c2, fact c3, fact c4, fact c5, fact c6, fact c7,
      fact c8, fact c9, fact c10, fact c11)
qed

end
